theory Spec2Isabelle
  imports Complex_Main "HOL-Library.Word" "HOL-Library.Log_Nat"
begin

unbundle bit_operations_syntax

section \<open>JavaScript values used by the scene component\<close>

text \<open>
  A JavaScript string is a sequence of UTF-16 code units; \<open>charCodeAt\<close> reads one unit.
  A number is an IEEE 754 double. The model keeps it as an \<open>int\<close> where the source keeps it
  integral (hashes, indices, counts) and as the \<open>real\<close> it denotes otherwise; every
  arithmetic operation and every decimal literal of the particle, style and dithering code
  is rounded to the nearest double, ties to even (\<open>toDouble\<close>). \<open>NaN\<close>, the infinities and
  the sign of zero are outside the model. The playback machine works on millisecond
  times, where sums and differences are exact; its progress is kept as the exact quotient.
\<close>

type_synonym jsstring = "16 word list"

definition ascii :: "string \<Rightarrow> jsstring" where
  "ascii s = map of_char s"

text \<open>\<open>Math.PI\<close> is the double nearest to \<open>\<pi>\<close>, the dyadic rational \<open>884279719003555 / 2^48\<close>.\<close>

definition MATH_PI :: real where
  "MATH_PI = 884279719003555 / 281474976710656"

text \<open>\<open>ToInt32\<close>: the value modulo \<open>2^32\<close>, read as two's complement.\<close>

definition toInt32 :: "int \<Rightarrow> int" where
  "toInt32 v = signed_take_bit 31 v"

text \<open>The operators \<open><<\<close>, \<open>>>\<close> and \<open>&\<close> on numbers holding integers.\<close>

definition js_shl :: "int \<Rightarrow> nat \<Rightarrow> int" where
  "js_shl v n = toInt32 (push_bit (n mod 32) (toInt32 v))"

definition js_sar :: "int \<Rightarrow> nat \<Rightarrow> int" where
  "js_sar v n = drop_bit (n mod 32) (toInt32 v)"

definition js_and :: "int \<Rightarrow> int \<Rightarrow> int" where
  "js_and v w = toInt32 v AND toInt32 w"

section \<open>Rounding to a double\<close>

text \<open>\<open>pow2 e\<close> is \<open>2^e\<close> for an integer exponent of either sign.\<close>

definition pow2 :: "int \<Rightarrow> real" where
  "pow2 e = (if 0 \<le> e then 2 ^ nat e else 1 / 2 ^ nat (- e))"

text \<open>The integer \<open>k\<close> with \<open>2^k \<le> v < 2^(k+1)\<close>, for a positive \<open>v\<close>.\<close>

definition ilog2 :: "real \<Rightarrow> int" where
  "ilog2 v = (if 1 \<le> v then bitlen \<lfloor>v\<rfloor> - 1 else - bitlen (\<lceil>1 / v\<rceil> - 1))"

text \<open>Rounding to the nearest integer, a tie going to the even one.\<close>

definition roundHalfEven :: "real \<Rightarrow> int" where
  "roundHalfEven v =
    (let f = \<lfloor>v\<rfloor>
     in if v - real_of_int f < 1 / 2 then f
        else if v - real_of_int f > 1 / 2 then f + 1
        else if even f then f else f + 1)"

text \<open>
  The exponent of the unit in the last place of the doubles around \<open>v\<close>: 52 below the
  exponent of \<open>v\<close> for a normal number (53 significant bits), and \<open>-1074\<close> for a subnormal one.
\<close>

definition binade :: "real \<Rightarrow> int" where
  "binade v = max (ilog2 \<bar>v\<bar> - 52) (- 1074)"

definition toDouble :: "real \<Rightarrow> real" where
  "toDouble v =
    (if v = 0 then 0
     else real_of_int (roundHalfEven (v / pow2 (binade v))) * pow2 (binade v))"

text \<open>The operators \<open>+\<close>, \<open>-\<close>, \<open>*\<close> and \<open>/\<close> on doubles.\<close>

definition jsAdd :: "real \<Rightarrow> real \<Rightarrow> real" where
  "jsAdd a b = toDouble (a + b)"

definition jsSub :: "real \<Rightarrow> real \<Rightarrow> real" where
  "jsSub a b = toDouble (a - b)"

definition jsMul :: "real \<Rightarrow> real \<Rightarrow> real" where
  "jsMul a b = toDouble (a * b)"

definition jsDiv :: "real \<Rightarrow> real \<Rightarrow> real" where
  "jsDiv a b = toDouble (a / b)"

section \<open>Style variants (\<open>components/cosmic-ascii-scene.tsx\<close>, lines 39 to 126)\<close>

datatype BaseStyle = Drift | Swirl | Pulse | Twinkle | Wave | Orbit | Flare | Ripple

record StyleVariant =
  baseStyle :: "BaseStyle option"
  speedMultiplier :: real
  densityMultiplier :: real
  intensity :: real
  oscillationPhase :: real
  distortion :: real
  seed :: int

definition BASE_STYLES :: "BaseStyle list" where
  "BASE_STYLES = [Drift, Swirl, Pulse, Twinkle, Wave, Orbit, Flare, Ripple]"

definition TYPE_STYLE_BIAS :: "(string \<times> BaseStyle list) list" where
  "TYPE_STYLE_BIAS =
    [(''blackhole'', [Swirl, Ripple, Flare]),
     (''sun'', [Pulse, Flare, Wave]),
     (''star'', [Twinkle, Pulse, Wave]),
     (''pulsar'', [Pulse, Flare]),
     (''nebula'', [Wave, Ripple, Drift]),
     (''galaxy'', [Swirl, Drift, Ripple]),
     (''cluster'', [Twinkle, Pulse, Ripple]),
     (''quasar'', [Flare, Swirl, Pulse]),
     (''supernova'', [Flare, Wave, Pulse]),
     (''exoplanet'', [Orbit, Drift, Wave]),
     (''rings'', [Orbit, Ripple, Drift]),
     (''comet'', [Drift, Ripple, Flare]),
     (''meteoroid'', [Drift, Flare, Wave]),
     (''asteroid'', [Drift, Orbit, Ripple]),
     (''moon'', [Orbit, Twinkle, Wave]),
     (''cloud'', [Ripple, Wave, Drift]),
     (''structure'', [Swirl, Ripple, Drift]),
     (''stream'', [Wave, Drift, Ripple]),
     (''rogueplanet'', [Orbit, Drift, Pulse]),
     (''phenomena'', [Flare, Wave, Pulse]),
     (''wave'', [Wave, Ripple, Drift]),
     (''magnetar'', [Pulse, Flare, Swirl]),
     (''burst'', [Flare, Pulse, Wave]),
     (''core'', [Swirl, Pulse, Flare]),
     (''background'', [Ripple, Drift, Wave]),
     (''halo'', [Ripple, Swirl, Orbit]),
     (''browndwarf'', [Pulse, Flare, Twinkle]),
     (''void'', [Drift, Ripple, Swirl]),
     (''boundary'', [Wave, Ripple, Flare]),
     (''belt'', [Orbit, Drift, Ripple]),
     (''dwarfplanet'', [Orbit, Pulse, Drift]),
     (''supercluster'', [Swirl, Twinkle, Ripple]),
     (''frb'', [Flare, Pulse, Twinkle])]"

text \<open>
  \<open>TYPE_STYLE_BIAS\<close> is an object literal, so \<open>TYPE_STYLE_BIAS[entityType]\<close> also finds the
  properties every object inherits from \<open>Object.prototype\<close>. Each of them is a function or
  an object that is neither \<open>null\<close> nor \<open>undefined\<close>, so \<open>??\<close> keeps it, and indexing it
  with a number yields \<open>undefined\<close>.
\<close>

definition OBJECT_PROTOTYPE_KEYS :: "string list" where
  "OBJECT_PROTOTYPE_KEYS =
    [''constructor'', ''hasOwnProperty'', ''isPrototypeOf'', ''propertyIsEnumerable'',
     ''toLocaleString'', ''toString'', ''valueOf'', ''__proto__'',
     ''__defineGetter__'', ''__defineSetter__'', ''__lookupGetter__'', ''__lookupSetter__'']"

datatype bias_lookup = Own "BaseStyle list" | Inherited | Absent

definition lookupBias :: "jsstring \<Rightarrow> bias_lookup" where
  "lookupBias entityType =
    (case map_of (map (\<lambda>(k, v). (ascii k, v)) TYPE_STYLE_BIAS) entityType of
       Some bias \<Rightarrow> Own bias
     | None \<Rightarrow> if entityType \<in> set (map ascii OBJECT_PROTOTYPE_KEYS) then Inherited else Absent)"

definition hashStep :: "int \<Rightarrow> 16 word \<Rightarrow> int" where
  "hashStep hash c = toInt32 (js_shl hash 5 - hash + uint c)"

definition hashString :: "jsstring \<Rightarrow> int" where
  "hashString v = foldl hashStep 0 v"

text \<open>\<open>bias[hash % bias.length]\<close>; on an empty array the index is \<open>NaN\<close> and the read \<open>undefined\<close>.\<close>

definition pickStyle :: "BaseStyle list \<Rightarrow> int \<Rightarrow> BaseStyle option" where
  "pickStyle bias hash =
    (if bias = [] then None else Some (bias ! nat (hash mod int (length bias))))"

definition takeBits :: "int \<Rightarrow> nat \<Rightarrow> int \<Rightarrow> real" where
  "takeBits hash shift bitmask =
    jsDiv (real_of_int (js_and (js_sar hash shift) bitmask)) (real_of_int bitmask)"

definition styleKey :: "jsstring \<Rightarrow> jsstring \<Rightarrow> jsstring" where
  "styleKey animationStyle entityType =
    (if animationStyle \<noteq> [] then animationStyle
     else if entityType \<noteq> [] then entityType
     else ascii ''cosmic'')"

definition getStyleVariant :: "jsstring \<Rightarrow> jsstring \<Rightarrow> StyleVariant" where
  "getStyleVariant animationStyle entityType =
    (let hash = \<bar>hashString (styleKey animationStyle entityType)\<bar> in
     \<lparr> baseStyle =
         (case lookupBias entityType of
            Own bias \<Rightarrow> pickStyle bias hash
          | Inherited \<Rightarrow> None
          | Absent \<Rightarrow> pickStyle BASE_STYLES hash),
       speedMultiplier = jsAdd (toDouble (6 / 10)) (jsMul (takeBits hash 2 255) (toDouble (22 / 10))),
       densityMultiplier = jsAdd (toDouble (7 / 10)) (jsMul (takeBits hash 10 255) (toDouble (25 / 10))),
       intensity = jsAdd (toDouble (5 / 10)) (jsMul (takeBits hash 18 255) (toDouble (15 / 10))),
       oscillationPhase = jsMul (jsMul (takeBits hash 24 255) MATH_PI) 2,
       distortion = takeBits hash 5 63,
       seed = hash \<rparr>)"

section \<open>Entities and playback state (lines 17 to 30 and 128 to 221)\<close>

record Palette =
  primary :: jsstring
  secondary :: jsstring
  accent :: jsstring

record CosmicEntity =
  entity_id :: int
  entity_name :: jsstring
  entity_type :: jsstring
  colorPalette :: Palette
  animationStyle :: jsstring
  duration :: real

text \<open>
  The catalog \<open>COSMIC_ENTITIES\<close> is read from \<open>data/cosmic-entities.json\<close>; it is a
  parameter of every definition below. Reading a property of \<open>undefined\<close> throws.
\<close>

datatype js_error = TypeError

record Playback =
  currentEntityIndex :: nat
  nextEntityIndex :: nat
  transitionProgress :: real
  isTransitioning :: bool
  lastSceneChange :: real

text \<open>The component's state when it mounts at time \<open>t0\<close> (the \<open>useState\<close> and \<open>useRef\<close> initial values).\<close>

definition mountState :: "real \<Rightarrow> Playback" where
  "mountState t0 =
    \<lparr> currentEntityIndex = 0, nextEntityIndex = 1, transitionProgress = 0,
      isTransitioning = False, lastSceneChange = t0 \<rparr>"

text \<open>
  One run of \<open>checkSceneChange\<close> at \<open>Date.now() = now\<close>. The effect that installs the
  interval is re-run whenever one of the state variables it closes over changes, so each
  tick sees the state left by the tick before.
\<close>

definition checkSceneChange :: "CosmicEntity list \<Rightarrow> real \<Rightarrow> Playback \<Rightarrow> js_error + Playback" where
  "checkSceneChange catalog now s =
    (if currentEntityIndex s < length catalog then
       let elapsed = now - lastSceneChange s;
           currentEntity = catalog ! currentEntityIndex s;
           transitionDuration = 1000
       in if elapsed \<ge> duration currentEntity + transitionDuration then
            Inr (s \<lparr> currentEntityIndex := nextEntityIndex s,
                     nextEntityIndex := (nextEntityIndex s + 1) mod length catalog,
                     lastSceneChange := now,
                     transitionProgress := 0,
                     isTransitioning := False \<rparr>)
          else if elapsed \<ge> duration currentEntity \<and> \<not> isTransitioning s then
            Inr (s \<lparr> isTransitioning := True \<rparr>)
          else if isTransitioning s then
            Inr (s \<lparr> transitionProgress := (elapsed - duration currentEntity) / transitionDuration \<rparr>)
          else Inr s
     else Inl TypeError)"


fun autoPlay :: "CosmicEntity list \<Rightarrow> real list \<Rightarrow> Playback \<Rightarrow> js_error + Playback" where
  "autoPlay catalog [] s = Inr s"
| "autoPlay catalog (now # ticks) s =
    (case checkSceneChange catalog now s of
       Inl e \<Rightarrow> Inl e
     | Inr s' \<Rightarrow> autoPlay catalog ticks s')"

text \<open>The states the machine passes through, the starting state first; it stops at an error.\<close>

fun playbackTrace :: "CosmicEntity list \<Rightarrow> real list \<Rightarrow> Playback \<Rightarrow> Playback list" where
  "playbackTrace catalog [] s = [s]"
| "playbackTrace catalog (now # ticks) s =
    s # (case checkSceneChange catalog now s of
           Inl e \<Rightarrow> []
         | Inr s' \<Rightarrow> playbackTrace catalog ticks s')"

text \<open>A palette and an entity with a given display duration, for concrete runs; the playback machine reads the duration only.\<close>

definition samplePalette :: Palette where
  "samplePalette =
    \<lparr> primary = ascii ''#FFFFFF'', secondary = ascii ''#88CCFF'', accent = ascii ''#FFAA00'' \<rparr>"

definition sampleEntity :: "real \<Rightarrow> CosmicEntity" where
  "sampleEntity d =
    \<lparr> entity_id = 0, entity_name = ascii ''Sample'', entity_type = ascii ''star'',
      colorPalette = samplePalette,
      animationStyle = ascii ''twinkle'', duration = d \<rparr>"



section \<open>Interactive mode (lines 251 to 304, and the host page \<open>app/page.tsx\<close>, lines 110 to 130)\<close>







section \<open>Weather label (lines 1120 to 1128)\<close>

definition getWeatherText :: "real \<Rightarrow> string" where
  "getWeatherText weatherCode =
    (if weatherCode = 0 then ''CLEAR''
     else if weatherCode \<ge> 1 \<and> weatherCode \<le> 3 then ''CLOUDY''
     else if weatherCode \<ge> 45 \<and> weatherCode \<le> 48 then ''FOGGY''
     else if weatherCode \<ge> 51 \<and> weatherCode \<le> 67 then ''RAINY''
     else if weatherCode \<ge> 71 \<and> weatherCode \<le> 77 then ''SNOWY''
     else if weatherCode \<ge> 80 \<and> weatherCode \<le> 99 then ''STORMY''
     else ''UNKNOWN'')"

section \<open>The hash as the specification words it\<close>

text \<open>
  The specification's rolling hash: start at 0; for each code unit multiply the running
  value by 31, add the unit, and truncate to a signed 32-bit integer.
\<close>

definition wrapSigned32 :: "int \<Rightarrow> int" where
  "wrapSigned32 v = (v + 2 ^ 31) mod 2 ^ 32 - 2 ^ 31"

definition polyHash31 :: "jsstring \<Rightarrow> int" where
  "polyHash31 v = foldl (\<lambda>h c. wrapSigned32 (31 * h + uint c)) 0 v"

section \<open>Particles (lines 338 to 456)\<close>

text \<open>
  \<open>Math.random\<close> is modelled by the sequence \<open>rnd\<close> of the values it returns and a counter of
  the draws made so far, threaded through every function that draws. \<open>Math.sin\<close> is a
  parameter as well. A glyph is stored as its code point.
\<close>

record Particle =
  p_x :: real
  p_y :: real
  p_vx :: real
  p_vy :: real
  p_life :: real
  p_maxLife :: real
  p_char :: nat
  p_color :: jsstring

definition VARIANT_CHARSET :: "nat list" where
  "VARIANT_CHARSET = [0xB7, 0x2219, 0x2022, 0x25CB, 0x2736, 0x2737, 0x2738, 0x2739, 0x273A, 0x273B]"

definition PLAIN_CHARSET :: "nat list" where
  "PLAIN_CHARSET = [0xB7, 0x2219, 0x2022, 0x25CB]"

definition paletteList :: "Palette \<Rightarrow> jsstring list" where
  "paletteList colors = [primary colors, secondary colors, accent colors]"

definition createParticle ::
  "(nat \<Rightarrow> real) \<Rightarrow> nat \<Rightarrow> real \<Rightarrow> real \<Rightarrow> StyleVariant option \<Rightarrow> Palette option
     \<Rightarrow> Particle \<times> nat" where
  "createParticle rnd k width height variant colors =
    (let (seedv, k1) = (case variant of Some v \<Rightarrow> (real_of_int (seed v), k)
                                      | None \<Rightarrow> (jsMul (rnd k) 1000, k + 1));
         charSet = (case variant of Some v \<Rightarrow> VARIANT_CHARSET | None \<Rightarrow> PLAIN_CHARSET);
         char = charSet
           ! (nat \<bar>\<lfloor>seedv\<rfloor> + \<lfloor>jsMul (rnd k1) (real (length charSet))\<rfloor>\<bar> mod length charSet);
         palette = (case colors of Some c \<Rightarrow> paletteList c | None \<Rightarrow> [ascii ''#FFFFFF'']);
         color = palette ! (nat \<bar>\<lfloor>jsDiv seedv 3\<rfloor>\<bar> mod length palette)
     in (\<lparr> p_x = jsMul (rnd (k1 + 1)) width,
           p_y = jsMul (rnd (k1 + 2)) height,
           p_vx = jsMul (jsSub (rnd (k1 + 3)) (5 / 10)) (5 / 10),
           p_vy = jsMul (jsSub (rnd (k1 + 4)) (5 / 10)) (5 / 10),
           p_life = jsMul (rnd (k1 + 5)) 100,
           p_maxLife = 100,
           p_char = char,
           p_color = color \<rparr>, k1 + 6))"

text \<open>\<open>Math.max(40, Math.floor(90 * variant.densityMultiplier))\<close>, a count of at least 40.\<close>

definition targetParticleCount :: "StyleVariant \<Rightarrow> nat" where
  "targetParticleCount variant = nat (max 40 \<lfloor>jsMul 90 (densityMultiplier variant)\<rfloor>)"

text \<open>The two \<open>while\<close> loops at the head of \<open>renderEntity\<close>.\<close>

function growPool ::
  "(nat \<Rightarrow> real) \<Rightarrow> nat \<Rightarrow> real \<Rightarrow> real \<Rightarrow> StyleVariant \<Rightarrow> Palette \<Rightarrow> nat \<Rightarrow> Particle list
     \<Rightarrow> Particle list \<times> nat" where
  "growPool rnd k width height variant colors target particles =
    (if length particles < target then
       growPool rnd (snd (createParticle rnd k width height (Some variant) (Some colors)))
         width height variant colors target
         (particles @ [fst (createParticle rnd k width height (Some variant) (Some colors))])
     else (particles, k))"
  by pat_completeness auto
termination
  by (relation "measure (\<lambda>(rnd, k, width, height, variant, colors, target, particles).
        target - length particles)") auto

function shrinkPool :: "nat \<Rightarrow> Particle list \<Rightarrow> Particle list" where
  "shrinkPool target particles =
    (if length particles > target then shrinkPool target (butlast particles)
     else particles)"
  by pat_completeness auto
termination
  by (relation "measure (\<lambda>(target, particles). length particles)") auto

declare growPool.simps [simp del] shrinkPool.simps [simp del]

definition adjustPool ::
  "(nat \<Rightarrow> real) \<Rightarrow> nat \<Rightarrow> real \<Rightarrow> real \<Rightarrow> StyleVariant \<Rightarrow> Palette \<Rightarrow> Particle list
     \<Rightarrow> Particle list \<times> nat" where
  "adjustPool rnd k width height variant colors particles =
    (let targetCount = targetParticleCount variant;
         (grown, k') = growPool rnd k width height variant colors targetCount particles
     in (shrinkPool targetCount grown, k'))"

text \<open>
  The body of the \<open>forEach\<close> in \<open>updateParticles\<close>, for one particle: the three compound
  assignments, the test, and the respawn in place.
\<close>

definition advance :: "StyleVariant \<Rightarrow> Particle \<Rightarrow> Particle" where
  "advance variant p =
    (let speedFactor = jsMul (toDouble (4 / 10)) (speedMultiplier variant);
         p1 = p \<lparr> p_x := jsAdd (p_x p) (jsMul (p_vx p) speedFactor) \<rparr>;
         p2 = p1 \<lparr> p_y := jsAdd (p_y p1) (jsMul (p_vy p1) speedFactor) \<rparr>
     in p2 \<lparr> p_life := jsSub (p_life p2)
                  (jsAdd (toDouble (4 / 10)) (jsMul (intensity variant) (toDouble (2 / 10)))) \<rparr>)"

definition expiredOrOutside :: "real \<Rightarrow> real \<Rightarrow> Particle \<Rightarrow> bool" where
  "expiredOrOutside width height p \<longleftrightarrow>
     p_life p \<le> 0 \<or> p_x p < 0 \<or> p_x p > width \<or> p_y p < 0 \<or> p_y p > height"

definition respawn ::
  "(real \<Rightarrow> real) \<Rightarrow> (nat \<Rightarrow> real) \<Rightarrow> nat \<Rightarrow> real \<Rightarrow> real \<Rightarrow> Palette \<Rightarrow> StyleVariant \<Rightarrow> Particle
     \<Rightarrow> Particle \<times> nat" where
  "respawn math_sin rnd k width height colors variant p =
    (let p1 = p \<lparr> p_x := jsMul (rnd k) width \<rparr>;
         p2 = p1 \<lparr> p_y := jsMul (rnd (k + 1)) height \<rparr>;
         p3 = p2 \<lparr> p_life := p_maxLife p2 \<rparr>;
         palette = paletteList colors;
         offset = jsMul \<bar>math_sin (jsAdd (real_of_int (seed variant)) (p_life p3))\<bar>
                    (real (length palette));
         p4 = p3 \<lparr> p_color := palette ! (nat \<lfloor>offset\<rfloor> mod length palette) \<rparr>;
         p5 = p4 \<lparr> p_vx := jsMul (jsSub (rnd (k + 2)) (5 / 10)) (speedMultiplier variant) \<rparr>
     in (p5 \<lparr> p_vy := jsMul (jsSub (rnd (k + 3)) (5 / 10)) (speedMultiplier variant) \<rparr>, k + 4))"

definition updateParticle ::
  "(real \<Rightarrow> real) \<Rightarrow> (nat \<Rightarrow> real) \<Rightarrow> nat \<Rightarrow> real \<Rightarrow> real \<Rightarrow> Palette \<Rightarrow> StyleVariant \<Rightarrow> Particle
     \<Rightarrow> Particle \<times> nat" where
  "updateParticle math_sin rnd k width height colors variant p =
    (let p' = advance variant p
     in if expiredOrOutside width height p'
        then respawn math_sin rnd k width height colors variant p'
        else (p', k))"

fun updateParticles ::
  "(real \<Rightarrow> real) \<Rightarrow> (nat \<Rightarrow> real) \<Rightarrow> nat \<Rightarrow> real \<Rightarrow> real \<Rightarrow> Palette \<Rightarrow> StyleVariant
     \<Rightarrow> Particle list \<Rightarrow> Particle list \<times> nat" where
  "updateParticles math_sin rnd k width height colors variant [] = ([], k)"
| "updateParticles math_sin rnd k width height colors variant (p # ps) =
    (let (p', k') = updateParticle math_sin rnd k width height colors variant p;
         (ps', k'') = updateParticles math_sin rnd k' width height colors variant ps
     in (p' # ps', k''))"

text \<open>What the update establishes for a particle inside a canvas of the given size.\<close>

definition particleOk :: "real \<Rightarrow> real \<Rightarrow> Particle \<Rightarrow> bool" where
  "particleOk width height p \<longleftrightarrow>
     0 < p_life p \<and> p_life p \<le> p_maxLife p
     \<and> 0 \<le> p_x p \<and> p_x p \<le> width \<and> 0 \<le> p_y p \<and> p_y p \<le> height"

text \<open>A particle at rest in the middle of an 800 by 600 canvas, for concrete runs.\<close>

definition restingParticle :: "real \<Rightarrow> Particle" where
  "restingParticle lifeLeft =
    \<lparr> p_x = 400, p_y = 300, p_vx = 0, p_vy = 0, p_life = lifeLeft, p_maxLife = 100,
      p_char = 0xB7, p_color = ascii ''#FFFFFF'' \<rparr>"

section \<open>Dithering (lines 1136 to 1189)\<close>

record RGB =
  rgb_r :: nat
  rgb_g :: nat
  rgb_b :: nat

text \<open>A hexadecimal digit, as the character class \<open>[a-f\d]\<close> under the \<open>i\<close> flag matches it.\<close>

definition hexDigit :: "16 word \<Rightarrow> nat option" where
  "hexDigit c =
    (let n = unat c
     in if 48 \<le> n \<and> n \<le> 57 then Some (n - 48)
        else if 97 \<le> n \<and> n \<le> 102 then Some (n - 87)
        else if 65 \<le> n \<and> n \<le> 70 then Some (n - 55)
        else None)"

text \<open>
  \<open>hexToRgb\<close>: an optional \<open>#\<close>, then exactly six hexadecimal digits and nothing else; any
  other string gives black.
\<close>

definition hexToRgb :: "jsstring \<Rightarrow> RGB" where
  "hexToRgb hex =
    (let digits = (case hex of c # rest \<Rightarrow> if c = 35 then rest else hex | [] \<Rightarrow> hex)
     in case map hexDigit digits of
          [Some r1, Some r0, Some g1, Some g0, Some b1, Some b0] \<Rightarrow>
            \<lparr> rgb_r = 16 * r1 + r0, rgb_g = 16 * g1 + g0, rgb_b = 16 * b1 + b0 \<rparr>
        | _ \<Rightarrow> \<lparr> rgb_r = 0, rgb_g = 0, rgb_b = 0 \<rparr>)"

text \<open>
  A store into the \<open>Uint8ClampedArray\<close> of the image data: the number is clamped to
  0..255 and rounded to the nearest integer, a tie going to the even one.
\<close>

definition toUint8Clamped :: "real \<Rightarrow> nat" where
  "toUint8Clamped v =
    (if v \<le> 0 then 0 else if v \<ge> 255 then 255 else nat (roundHalfEven v))"

definition ditherMatrix :: "nat list list" where
  "ditherMatrix = [[0, 8, 2, 10], [12, 4, 14, 6], [3, 11, 1, 9], [15, 7, 13, 5]]"

text \<open>
  The expressions of the inner loop: the threshold of a pixel, its luma, and the value
  stored into one colour channel of a bright and of a dark pixel.
\<close>

definition bayerThreshold :: "nat \<Rightarrow> nat \<Rightarrow> real" where
  "bayerThreshold x y = jsMul (jsDiv (real (ditherMatrix ! (y mod 4) ! (x mod 4))) 16) 255"

definition luma :: "nat \<Rightarrow> nat \<Rightarrow> nat \<Rightarrow> real" where
  "luma red green blue =
     jsAdd (jsAdd (jsMul (real red) (toDouble (299 / 1000)))
                  (jsMul (real green) (toDouble (587 / 1000))))
           (jsMul (real blue) (toDouble (114 / 1000)))"

definition tintedByte :: "nat \<Rightarrow> nat \<Rightarrow> nat \<Rightarrow> real \<Rightarrow> nat" where
  "tintedByte c tintC accentC tintStrength =
     toUint8Clamped (min 255
       (jsAdd (jsAdd (jsMul (real c) (toDouble (7 / 10)))
                     (jsMul (real tintC) (toDouble (2 / 10))))
              (jsMul (jsMul (real accentC) (toDouble (1 / 10))) tintStrength)))"

definition darkenedByte :: "nat \<Rightarrow> nat" where
  "darkenedByte c = toUint8Clamped (jsMul (real c) (toDouble (15 / 100)))"

text \<open>The body of the inner loop, for the pixel in column \<open>x\<close> of row \<open>y\<close>.\<close>

definition ditherPixel :: "RGB \<Rightarrow> RGB \<Rightarrow> nat \<Rightarrow> nat \<Rightarrow> nat \<Rightarrow> nat list \<Rightarrow> nat list" where
  "ditherPixel tintRgb accentRgb width x y data =
    (let i = (y * width + x) * 4;
         threshold = bayerThreshold x y;
         gray = luma (data ! i) (data ! (i + 1)) (data ! (i + 2))
     in if gray > threshold then
          let tintStrength = jsDiv gray 255;
              d1 = data[i := tintedByte (data ! i) (rgb_r tintRgb) (rgb_r accentRgb) tintStrength];
              d2 = d1[i + 1 :=
                     tintedByte (d1 ! (i + 1)) (rgb_g tintRgb) (rgb_g accentRgb) tintStrength]
          in d2[i + 2 := tintedByte (d2 ! (i + 2)) (rgb_b tintRgb) (rgb_b accentRgb) tintStrength]
        else
          let d1 = data[i := darkenedByte (data ! i)];
              d2 = d1[i + 1 := darkenedByte (d1 ! (i + 1))]
          in d2[i + 2 := darkenedByte (d2 ! (i + 2))])"

function ditherColumns :: "RGB \<Rightarrow> RGB \<Rightarrow> nat \<Rightarrow> nat \<Rightarrow> nat \<Rightarrow> nat list \<Rightarrow> nat list" where
  "ditherColumns tintRgb accentRgb width y x data =
    (if x < width
     then ditherColumns tintRgb accentRgb width y (x + 1) (ditherPixel tintRgb accentRgb width x y data)
     else data)"
  by pat_completeness auto
termination
  by (relation "measure (\<lambda>(tintRgb, accentRgb, width, y, x, data). width - x)") auto

function ditherRows :: "RGB \<Rightarrow> RGB \<Rightarrow> nat \<Rightarrow> nat \<Rightarrow> nat \<Rightarrow> nat list \<Rightarrow> nat list" where
  "ditherRows tintRgb accentRgb width height y data =
    (if y < height
     then ditherRows tintRgb accentRgb width height (y + 1) (ditherColumns tintRgb accentRgb width y 0 data)
     else data)"
  by pat_completeness auto
termination
  by (relation "measure (\<lambda>(tintRgb, accentRgb, width, height, y, data). height - y)") auto

text \<open>The loop equations are unfolded by hand, one iteration at a time.\<close>

declare ditherColumns.simps [simp del] ditherRows.simps [simp del]

text \<open>
  \<open>applyEnhancedDithering\<close> on the bytes \<open>getImageData(0, 0, width, height)\<close> returns (four
  per pixel, row by row); the result is what \<open>putImageData\<close> writes back.
\<close>

definition applyEnhancedDithering :: "nat list \<Rightarrow> nat \<Rightarrow> nat \<Rightarrow> Palette \<Rightarrow> nat list" where
  "applyEnhancedDithering data width height colors =
    ditherRows (hexToRgb (secondary colors)) (hexToRgb (accent colors)) width height 0 data"

text \<open>
  The byte at index \<open>j\<close> of the result, read off the input buffer: alpha is kept, a colour
  channel of a pixel above its threshold is tinted, one at or below it is darkened.
\<close>

definition ditheredByte :: "RGB \<Rightarrow> RGB \<Rightarrow> nat \<Rightarrow> nat list \<Rightarrow> nat \<Rightarrow> nat" where
  "ditheredByte tintRgb accentRgb width data j =
    (let q = j div 4;
         c = j mod 4;
         threshold = bayerThreshold (q mod width) (q div width);
         gray = luma (data ! (4 * q)) (data ! (4 * q + 1)) (data ! (4 * q + 2));
         tintC = (if c = 0 then rgb_r tintRgb else if c = 1 then rgb_g tintRgb
                  else rgb_b tintRgb);
         accentC = (if c = 0 then rgb_r accentRgb else if c = 1 then rgb_g accentRgb
                    else rgb_b accentRgb)
     in if c = 3 then data ! j
        else if gray > threshold then tintedByte (data ! j) tintC accentC (jsDiv gray 255)
        else darkenedByte (data ! j))"

definition ditheredUpTo :: "RGB \<Rightarrow> RGB \<Rightarrow> nat \<Rightarrow> nat list \<Rightarrow> nat \<Rightarrow> nat list \<Rightarrow> bool" where
  "ditheredUpTo tintRgb accentRgb width data n buf \<longleftrightarrow>
     length buf = length data
     \<and> (\<forall>j < length data.
           buf ! j = (if j < 4 * n then ditheredByte tintRgb accentRgb width data j else data ! j))"

section \<open>Verified properties\<close>

subsection \<open>Rounding to a double is monotone\<close>

lemma pow2_powr: "pow2 e = 2 powr (real_of_int e)"
proof (cases "0 \<le> e")
  case True
  then have "2 powr (real_of_int e) = 2 powr (real (nat e))"
    by simp
  also have "\<dots> = 2 ^ nat e"
    by (rule powr_realpow) simp
  finally show ?thesis using True by (simp add: pow2_def)
next
  case False
  then have "2 powr (real_of_int e) = 2 powr (- real (nat (- e)))"
    by simp
  also have "\<dots> = 1 / 2 powr (real (nat (- e)))"
    by (simp add: powr_minus_divide)
  also have "2 powr (real (nat (- e))) = (2::real) ^ nat (- e)"
    by (rule powr_realpow) simp
  finally show ?thesis using False by (simp add: pow2_def)
qed

lemma pow2_pos: "0 < pow2 e"
  by (simp add: pow2_powr)

lemma pow2_add: "pow2 (a + b) = pow2 a * pow2 b"
  by (simp add: pow2_powr powr_add)

lemma pow2_mono: "a \<le> b \<Longrightarrow> pow2 a \<le> pow2 b"
  by (simp add: pow2_powr)

lemma roundHalfEven_int: "roundHalfEven (real_of_int n) = n"
  by (simp add: roundHalfEven_def)

lemma roundHalfEven_cases:
  "roundHalfEven v = \<lfloor>v\<rfloor> \<or> roundHalfEven v = \<lfloor>v\<rfloor> + 1"
  by (simp add: roundHalfEven_def Let_def)

lemma roundHalfEven_mono:
  assumes "v \<le> w"
  shows "roundHalfEven v \<le> roundHalfEven w"
proof -
  have fl: "\<lfloor>v\<rfloor> \<le> \<lfloor>w\<rfloor>"
    using assms by (rule floor_mono)
  show ?thesis
  proof (cases "\<lfloor>v\<rfloor> = \<lfloor>w\<rfloor>")
    case True
    then have "v - real_of_int \<lfloor>v\<rfloor> \<le> w - real_of_int \<lfloor>w\<rfloor>"
      using assms by simp
    then show ?thesis
      using True by (auto simp: roundHalfEven_def Let_def)
  next
    case False
    with fl have "\<lfloor>v\<rfloor> + 1 \<le> \<lfloor>w\<rfloor>"
      by simp
    moreover have "roundHalfEven v \<le> \<lfloor>v\<rfloor> + 1"
      using roundHalfEven_cases [of v] by auto
    moreover have "\<lfloor>w\<rfloor> \<le> roundHalfEven w"
      using roundHalfEven_cases [of w] by auto
    ultimately show ?thesis by linarith
  qed
qed

lemma roundHalfEven_minus: "roundHalfEven (- v) = - roundHalfEven v"
proof (cases "v = real_of_int \<lfloor>v\<rfloor>")
  case True
  then obtain n where n: "v = real_of_int n" ..
  then have "- v = real_of_int (- n)" by simp
  then show ?thesis
    using roundHalfEven_int [of "- n"] roundHalfEven_int [of n] n by simp
next
  case False
  define f where "f = \<lfloor>v\<rfloor>"
  define d where "d = v - real_of_int f"
  have d: "0 < d" "d < 1"
    using False by (simp_all add: d_def f_def) linarith+
  have fm: "\<lfloor>- v\<rfloor> = - f - 1"
  proof (rule floor_unique)
    show "real_of_int (- f - 1) \<le> - v" using d by (simp add: d_def)
    show "- v < real_of_int (- f - 1) + 1" using d by (simp add: d_def)
  qed
  have dm: "- v - real_of_int \<lfloor>- v\<rfloor> = 1 - d"
    by (simp add: fm d_def)
  consider "d < 1 / 2" | "d > 1 / 2" | "d = 1 / 2" by linarith
  then show ?thesis
  proof cases
    case 1
    then have "roundHalfEven v = f" "roundHalfEven (- v) = - f - 1 + 1"
      using dm fm by (simp_all add: roundHalfEven_def Let_def d_def f_def)
    then show ?thesis by simp
  next
    case 2
    then have "roundHalfEven v = f + 1" "roundHalfEven (- v) = - f - 1"
      using dm fm by (simp_all add: roundHalfEven_def Let_def d_def f_def)
    then show ?thesis by simp
  next
    case 3
    then have a: "roundHalfEven v = (if even f then f else f + 1)"
      by (simp add: roundHalfEven_def Let_def d_def f_def)
    from 3 dm fm have b: "roundHalfEven (- v) = (if even (- f - 1) then - f - 1 else - f - 1 + 1)"
      by (simp add: roundHalfEven_def Let_def)
    show ?thesis using a b by auto
  qed
qed

lemma real_pow2_le_int: "2 ^ k \<le> (n::int) \<Longrightarrow> (2::real) ^ k \<le> real_of_int n"
  using of_int_le_iff [of "2 ^ k" n, where ?'a = real] by simp

lemma real_int_less_pow2: "(n::int) < 2 ^ k \<Longrightarrow> real_of_int n + 1 \<le> (2::real) ^ k"
  using of_int_le_iff [of "n + 1" "2 ^ k", where ?'a = real] by simp

lemma ilog2_bounds:
  assumes "0 < v"
  shows "pow2 (ilog2 v) \<le> v" and "v < pow2 (ilog2 v + 1)"
proof -
  have "pow2 (ilog2 v) \<le> v \<and> v < pow2 (ilog2 v + 1)"
  proof (cases "1 \<le> v")
    case True
    define n where "n = \<lfloor>v\<rfloor>"
    have n0: "0 < n"
      using True by (simp add: n_def)
    have nv: "real_of_int n \<le> v" "v < real_of_int n + 1"
      by (simp_all add: n_def)
    note b = bitlen_bounds [OF n0]
    have b1: "1 \<le> bitlen n"
      using n0 bitlen_eq_zero_iff [of n] bitlen_nonneg [of n] by linarith
    have e1: "pow2 (ilog2 v) = 2 ^ nat (bitlen n - 1)"
      using True b1 by (simp add: ilog2_def n_def [symmetric] pow2_def)
    have e2: "pow2 (ilog2 v + 1) = 2 ^ nat (bitlen n)"
      using True b1 by (simp add: ilog2_def n_def [symmetric] pow2_def)
    have "(2::real) ^ nat (bitlen n - 1) \<le> real_of_int n"
      using b by (intro real_pow2_le_int) simp
    moreover have "real_of_int n + 1 \<le> (2::real) ^ nat (bitlen n)"
      using b by (intro real_int_less_pow2) simp
    ultimately show ?thesis
      unfolding e1 e2 using nv by linarith
  next
    case False
    define m where "m = \<lceil>1 / v\<rceil>"
    have v1: "1 < 1 / v"
      using False assms by simp
    have m: "real_of_int m - 1 < 1 / v" "1 / v \<le> real_of_int m"
      unfolding m_def by linarith+
    with v1 have m1: "0 < m - 1"
      by linarith
    define k where "k = bitlen (m - 1)"
    note b = bitlen_bounds [OF m1, folded k_def]
    have k1: "1 \<le> k"
      using m1 bitlen_eq_zero_iff [of "m - 1"] bitlen_nonneg [of "m - 1"]
      unfolding k_def by linarith
    have "(2::real) ^ nat (k - 1) \<le> real_of_int (m - 1)"
      using b by (intro real_pow2_le_int) simp
    moreover have "real_of_int (m - 1) = real_of_int m - 1"
      by simp
    ultimately have "2 ^ nat (k - 1) < 1 / v"
      using m(1) by linarith
    then have up: "v < 1 / 2 ^ nat (k - 1)"
      using assms by (simp add: field_simps)
    have "real_of_int (m - 1) + 1 \<le> (2::real) ^ nat k"
      using b by (intro real_int_less_pow2) simp
    moreover have "real_of_int (m - 1) + 1 = real_of_int m"
      by simp
    ultimately have "1 / v \<le> 2 ^ nat k"
      using m(2) by linarith
    then have lo: "1 / 2 ^ nat k \<le> v"
      using assms by (simp add: field_simps)
    have il: "ilog2 v = - k"
      using False by (simp add: ilog2_def m_def [symmetric] k_def [symmetric])
    have p1: "pow2 (- k) = 1 / 2 ^ nat k"
      using k1 by (simp add: pow2_def)
    have p2: "pow2 (- k + 1) = 1 / 2 ^ nat (k - 1)"
    proof (cases "k = 1")
      case True
      then show ?thesis by (simp add: pow2_def)
    next
      case False
      with k1 have "- k + 1 < 0" "nat (- (- k + 1)) = nat (k - 1)" by simp_all
      then show ?thesis by (simp add: pow2_def)
    qed
    show ?thesis
      unfolding il p1 p2 using lo up by simp
  qed
  then show "pow2 (ilog2 v) \<le> v" and "v < pow2 (ilog2 v + 1)"
    by simp_all
qed

lemma ilog2_mono:
  assumes "0 < v" and "v \<le> w"
  shows "ilog2 v \<le> ilog2 w"
proof (rule ccontr)
  assume "\<not> ilog2 v \<le> ilog2 w"
  then have "ilog2 w + 1 \<le> ilog2 v" by simp
  then have "pow2 (ilog2 w + 1) \<le> pow2 (ilog2 v)" by (rule pow2_mono)
  also have "\<dots> \<le> v" using assms(1) by (rule ilog2_bounds)
  also have "v \<le> w" by fact
  also have "w < pow2 (ilog2 w + 1)" using assms by (intro ilog2_bounds) simp
  finally show False by simp
qed

lemma toDouble_alt:
  "v \<noteq> 0 \<Longrightarrow> toDouble v = real_of_int (roundHalfEven (v / pow2 (binade v))) * pow2 (binade v)"
  by (simp add: toDouble_def)

lemma toDouble_zero: "toDouble 0 = 0"
  by (simp add: toDouble_def)

lemma toDouble_minus: "toDouble (- v) = - toDouble v"
  by (simp add: toDouble_def binade_def roundHalfEven_minus)

lemma binade_mono: "0 < v \<Longrightarrow> v \<le> w \<Longrightarrow> binade v \<le> binade w"
  using ilog2_mono [of v w] by (simp add: binade_def)

lemma toDouble_mono_pos:
  assumes "0 < v" and "v \<le> w"
  shows "toDouble v \<le> toDouble w"
proof -
  from assms have w: "0 < w" by simp
  have tv: "toDouble v = real_of_int (roundHalfEven (v / pow2 (binade v))) * pow2 (binade v)"
    using assms(1) by (intro toDouble_alt) simp
  have tw: "toDouble w = real_of_int (roundHalfEven (w / pow2 (binade w))) * pow2 (binade w)"
    using w by (intro toDouble_alt) simp
  show ?thesis
  proof (cases "binade v = binade w")
    case True
    have "v / pow2 (binade w) \<le> w / pow2 (binade w)"
      using assms(2) pow2_pos [of "binade w"] by (simp add: divide_right_mono)
    then have "roundHalfEven (v / pow2 (binade w)) \<le> roundHalfEven (w / pow2 (binade w))"
      by (rule roundHalfEven_mono)
    then have "real_of_int (roundHalfEven (v / pow2 (binade w))) * pow2 (binade w)
        \<le> real_of_int (roundHalfEven (w / pow2 (binade w))) * pow2 (binade w)"
      using pow2_pos [of "binade w"] by (intro mult_right_mono) simp_all
    then show ?thesis
      unfolding tv tw True .
  next
    case False
    with binade_mono [OF assms] have lt: "binade v + 1 \<le> binade w"
      by simp
    have bv: "ilog2 v - 52 \<le> binade v"
      using assms(1) by (simp add: binade_def)
    have bw: "binade w = ilog2 w - 52"
      using lt w by (simp add: binade_def max_def split: if_splits)
    \<comment> \<open>the smaller value rounds to at most the top of its binade\<close>
    have "v < pow2 (ilog2 v + 1)"
      using assms(1) by (rule ilog2_bounds)
    also have "pow2 (ilog2 v + 1) \<le> pow2 (binade v + 53)"
      using bv by (intro pow2_mono) simp
    also have "pow2 (binade v + 53) = pow2 53 * pow2 (binade v)"
      by (simp add: pow2_add mult.commute)
    finally have "v / pow2 (binade v) \<le> pow2 53"
      using pow2_pos [of "binade v"] by (simp add: pos_divide_le_eq less_imp_le)
    then have "roundHalfEven (v / pow2 (binade v)) \<le> roundHalfEven (pow2 53)"
      by (rule roundHalfEven_mono)
    also have "roundHalfEven (pow2 53) = 2 ^ 53"
      using roundHalfEven_int [of "2 ^ 53"] by (simp add: pow2_def)
    finally have "real_of_int (roundHalfEven (v / pow2 (binade v))) \<le> pow2 53"
      using of_int_le_iff [of "roundHalfEven (v / pow2 (binade v))" "2 ^ 53", where ?'a = real]
      by (simp add: pow2_def)
    then have "toDouble v \<le> pow2 53 * pow2 (binade v)"
      unfolding tv using pow2_pos [of "binade v"] by (intro mult_right_mono) simp_all
    also have "\<dots> = pow2 (binade v + 1 + 52)"
      by (simp add: pow2_add [symmetric] add.commute)
    also have "\<dots> \<le> pow2 (binade w + 52)"
      using lt by (intro pow2_mono) simp
    also have "\<dots> = pow2 52 * pow2 (binade w)"
      by (simp add: pow2_add mult.commute)
    \<comment> \<open>the larger value rounds to at least the bottom of its binade\<close>
    also have "\<dots> \<le> toDouble w"
    proof -
      have "pow2 52 * pow2 (binade w) = pow2 (ilog2 w)"
        by (simp add: bw pow2_add [symmetric])
      also have "\<dots> \<le> w"
        using w by (rule ilog2_bounds)
      finally have "pow2 52 \<le> w / pow2 (binade w)"
        using pow2_pos [of "binade w"] by (simp add: pos_le_divide_eq)
      then have "roundHalfEven (pow2 52) \<le> roundHalfEven (w / pow2 (binade w))"
        by (rule roundHalfEven_mono)
      moreover have "roundHalfEven (pow2 52) = 2 ^ 52"
        using roundHalfEven_int [of "2 ^ 52"] by (simp add: pow2_def)
      ultimately have "pow2 52 \<le> real_of_int (roundHalfEven (w / pow2 (binade w)))"
        using of_int_le_iff [of "2 ^ 52" "roundHalfEven (w / pow2 (binade w))", where ?'a = real]
        by (simp add: pow2_def)
      then show ?thesis
        unfolding tw using pow2_pos [of "binade w"] by (intro mult_right_mono) simp_all
    qed
    finally show ?thesis .
  qed
qed

lemma toDouble_nonneg: "0 \<le> v \<Longrightarrow> 0 \<le> toDouble v"
proof (cases "v = 0")
  case True
  then show ?thesis by (simp add: toDouble_zero)
next
  case False
  assume "0 \<le> v"
  with False have v: "0 < v" by simp
  have "0 \<le> v / pow2 (binade v)"
    using v pow2_pos [of "binade v"] by simp
  then have "roundHalfEven 0 \<le> roundHalfEven (v / pow2 (binade v))"
    by (rule roundHalfEven_mono)
  then have "0 \<le> roundHalfEven (v / pow2 (binade v))"
    using roundHalfEven_int [of 0] by simp
  then show ?thesis
    using pow2_pos [of "binade v"] False by (simp add: toDouble_alt)
qed

lemma toDouble_mono:
  assumes "v \<le> w"
  shows "toDouble v \<le> toDouble w"
proof -
  consider (pos) "0 < v" | (mixed) "v \<le> 0" "0 \<le> w" | (neg) "w < 0"
    using assms by linarith
  then show ?thesis
  proof cases
    case pos
    then show ?thesis using assms by (rule toDouble_mono_pos)
  next
    case mixed
    have "0 \<le> toDouble (- v)"
      using mixed(1) by (intro toDouble_nonneg) simp
    then have "toDouble v \<le> 0"
      by (simp add: toDouble_minus)
    also have "0 \<le> toDouble w"
      using mixed(2) by (rule toDouble_nonneg)
    finally show ?thesis .
  next
    case neg
    then have "toDouble (- w) \<le> toDouble (- v)"
      using assms by (intro toDouble_mono_pos) simp_all
    then show ?thesis
      by (simp add: toDouble_minus)
  qed
qed

text \<open>Concrete doubles are computed by unfolding the definitions.\<close>

lemmas double_eval =
  toDouble_def binade_def ilog2_def pow2_def roundHalfEven_def jsAdd_def jsSub_def jsMul_def
  jsDiv_def Let_def compute_bitlen

subsection \<open>The string hash\<close>

lemma toInt32_eq_wrap: "toInt32 v = wrapSigned32 v"
  unfolding toInt32_def wrapSigned32_def
  by (simp add: signed_take_bit_eq_take_bit_shift take_bit_eq_mod)

lemma toInt32_add_left: "toInt32 (toInt32 a + b) = toInt32 (a + b)"
  unfolding toInt32_def
  by (metis signed_take_bit_add signed_take_bit_signed_take_bit min.idem)

lemma toInt32_mult_left: "toInt32 (toInt32 a * b) = toInt32 (a * b)"
  unfolding toInt32_def
  by (metis signed_take_bit_mult signed_take_bit_signed_take_bit min.idem)

lemma hashStep_poly: "hashStep h c = wrapSigned32 (31 * h + uint c)"
proof -
  have "js_shl h 5 - h + uint c = toInt32 (toInt32 h * 32) + (uint c - h)"
    by (simp add: js_shl_def push_bit_eq_mult)
  then have "hashStep h c = toInt32 (toInt32 (toInt32 h * 32) + (uint c - h))"
    by (simp only: hashStep_def)
  also have "\<dots> = toInt32 (toInt32 h * 32 + (uint c - h))"
    by (rule toInt32_add_left)
  also have "\<dots> = toInt32 (toInt32 (toInt32 h * 32) + (uint c - h))"
    by (simp only: toInt32_add_left)
  also have "\<dots> = toInt32 (toInt32 (h * 32) + (uint c - h))"
    by (simp only: toInt32_mult_left)
  also have "\<dots> = toInt32 (h * 32 + (uint c - h))"
    by (rule toInt32_add_left)
  also have "h * 32 + (uint c - h) = 31 * h + uint c"
    by simp
  finally show ?thesis by (simp add: toInt32_eq_wrap)
qed

lemma hashString_poly: "hashString s = polyHash31 s"
  unfolding hashString_def polyHash31_def
  by (rule arg_cong [where f = "\<lambda>f. foldl f 0 s"]) (simp add: fun_eq_iff hashStep_poly)

lemma wrapSigned32_range: "- (2 ^ 31) \<le> wrapSigned32 v \<and> wrapSigned32 v < 2 ^ 31"
proof -
  have "0 \<le> (v + 2 ^ 31) mod 2 ^ 32" "(v + 2 ^ 31) mod 2 ^ 32 < (2 ^ 32 :: int)"
    by simp_all
  then show ?thesis unfolding wrapSigned32_def by simp
qed

lemma hashString_range: "- (2 ^ 31) \<le> hashString s \<and> hashString s < 2 ^ 31"
proof (cases s rule: rev_cases)
  case Nil
  then show ?thesis by (simp add: hashString_def)
next
  case (snoc ys y)
  then have "hashString s = wrapSigned32 (31 * hashString ys + uint y)"
    by (simp add: hashString_def hashStep_poly)
  then show ?thesis using wrapSigned32_range by simp
qed

lemma seed_getStyleVariant: "seed (getStyleVariant a t) = \<bar>hashString (styleKey a t)\<bar>"
  by (simp add: getStyleVariant_def Let_def)

text \<open>
  Claim C8. For every string, \<open>hashString\<close> is the polynomial rolling hash that starts at 0
  and, for each code unit in order, multiplies the running value by 31 (the source shifts
  left by 5 and subtracts the value), adds the code unit and truncates to a signed 32-bit
  integer; the result lies in the signed 32-bit range. \<open>getStyleVariant\<close> uses the absolute
  value of the hash of the style label, of the entity type when the label is empty, and
  of the string "cosmic" when both are empty; the \<open>seed\<close> field carries that value.
\<close>

theorem hashString_is_polynomial_hash:
  "hashString s = polyHash31 s
   \<and> - (2 ^ 31) \<le> hashString s \<and> hashString s < 2 ^ 31
   \<and> seed (getStyleVariant a t) =
       \<bar>hashString (if a \<noteq> [] then a else if t \<noteq> [] then t else ascii ''cosmic'')\<bar>"
  using hashString_poly [of s] hashString_range [of s] seed_getStyleVariant [of a t]
  by (simp add: styleKey_def)

theorem hashString_is_polynomial_hash_witness:
  "hashString (ascii ''swirl'') = polyHash31 (ascii ''swirl'')
   \<and> seed (getStyleVariant [] []) = \<bar>hashString (ascii ''cosmic'')\<bar>
   \<and> seed (getStyleVariant [] (ascii ''sun'')) = \<bar>hashString (ascii ''sun'')\<bar>"
  using hashString_is_polynomial_hash [of "ascii ''swirl''" "[]" "[]"]
    hashString_is_polynomial_hash [of "[]" "[]" "ascii ''sun''"]
  by (simp add: ascii_def)

subsection \<open>Determinism of the variant\<close>

lemma hashString_swirl: "hashString (ascii ''swirl'') = 109854591"
  by (simp add: hashString_def hashStep_def js_shl_def toInt32_def ascii_def)

lemma getStyleVariant_swirl_blackhole:
  "getStyleVariant (ascii ''swirl'') (ascii ''blackhole'') =
    \<lparr> baseStyle = Some Swirl,
      speedMultiplier = 5683366117991473 / 2251799813685248,
      densityMultiplier = 7629627604015899 / 9007199254740992,
      intensity = 6569957103458135 / 4503599627370496,
      oscillationPhase = 5326484895644943 / 36028797018963968,
      distortion = 4217656793886655 / 4503599627370496, seed = 109854591 \<rparr>"
proof -
  have k: "styleKey (ascii ''swirl'') (ascii ''blackhole'') = ascii ''swirl''"
    by (simp add: styleKey_def ascii_def)
  have l: "lookupBias (ascii ''blackhole'') = Own [Swirl, Ripple, Flare]"
    by (simp add: lookupBias_def TYPE_STYLE_BIAS_def ascii_def)
  have t: "takeBits 109854591 2 255 = jsDiv 223 255" "takeBits 109854591 10 255 = jsDiv 15 255"
    "takeBits 109854591 18 255 = jsDiv 163 255" "takeBits 109854591 24 255 = jsDiv 6 255"
    "takeBits 109854591 5 63 = jsDiv 59 63"
    by (simp_all add: takeBits_def js_and_def js_sar_def toInt32_def)
  have "jsAdd (toDouble (6 / 10)) (jsMul (jsDiv 223 255) (toDouble (22 / 10)))
      = 5683366117991473 / 2251799813685248"
    by (simp add: double_eval)
  moreover have "jsAdd (toDouble (7 / 10)) (jsMul (jsDiv 15 255) (toDouble (25 / 10)))
      = 7629627604015899 / 9007199254740992"
    by (simp add: double_eval)
  moreover have "jsAdd (toDouble (5 / 10)) (jsMul (jsDiv 163 255) (toDouble (15 / 10)))
      = 6569957103458135 / 4503599627370496"
    by (simp add: double_eval)
  moreover have "jsMul (jsMul (jsDiv 6 255) MATH_PI) 2 = 5326484895644943 / 36028797018963968"
    by (simp add: double_eval MATH_PI_def)
  moreover have "jsDiv 59 63 = 4217656793886655 / 4503599627370496"
    by (simp add: double_eval)
  ultimately show ?thesis
    by (simp add: getStyleVariant_def Let_def k l hashString_swirl pickStyle_def t)
qed

text \<open>
  Claim C1. \<open>getStyleVariant\<close> is a function of its two arguments alone: it draws no random
  number and reads no state, so two calls with the same style label and entity type
  return the same record, field by field.
\<close>

theorem getStyleVariant_deterministic:
  assumes "a = a'" and "t = t'"
  shows "getStyleVariant a t = getStyleVariant a' t'
    \<and> baseStyle (getStyleVariant a t) = baseStyle (getStyleVariant a' t')
    \<and> speedMultiplier (getStyleVariant a t) = speedMultiplier (getStyleVariant a' t')
    \<and> densityMultiplier (getStyleVariant a t) = densityMultiplier (getStyleVariant a' t')
    \<and> intensity (getStyleVariant a t) = intensity (getStyleVariant a' t')
    \<and> oscillationPhase (getStyleVariant a t) = oscillationPhase (getStyleVariant a' t')
    \<and> distortion (getStyleVariant a t) = distortion (getStyleVariant a' t')
    \<and> seed (getStyleVariant a t) = seed (getStyleVariant a' t')"
  using assms by simp

theorem getStyleVariant_deterministic_witness:
  "getStyleVariant (ascii ''swirl'') (ascii ''blackhole'') =
     getStyleVariant (ascii ''swirl'') (ascii ''blackhole'')
   \<and> seed (getStyleVariant (ascii ''swirl'') (ascii ''blackhole'')) = 109854591"
  using getStyleVariant_deterministic [OF refl refl, of "ascii ''swirl''" "ascii ''blackhole''"]
  by (simp add: getStyleVariant_swirl_blackhole)

subsection \<open>Base style and bias table\<close>

lemma pickStyle_member:
  assumes "bias \<noteq> []"
  shows "pickStyle bias h \<in> Some ` set bias"
proof -
  have "0 \<le> h mod int (length bias)" "h mod int (length bias) < int (length bias)"
    using assms by simp_all
  then have "nat (h mod int (length bias)) < length bias"
    by linarith
  then show ?thesis using assms by (simp add: pickStyle_def)
qed

lemma lookupBias_own:
  "\<forall>(k, bias) \<in> set TYPE_STYLE_BIAS. lookupBias (ascii k) = Own bias"
  by (simp add: TYPE_STYLE_BIAS_def lookupBias_def ascii_def)

lemma bias_lists_shape:
  "\<forall>(k, bias) \<in> set TYPE_STYLE_BIAS.
     bias \<noteq> [] \<and> (length bias = 3 \<or> k = ''pulsar'' \<and> length bias = 2)"
  by (simp add: TYPE_STYLE_BIAS_def)

lemma lookupBias_absent:
  assumes "t \<notin> ascii ` fst ` set TYPE_STYLE_BIAS" and "t \<notin> ascii ` set OBJECT_PROTOTYPE_KEYS"
  shows "lookupBias t = Absent"
proof -
  have "fst ` set (map (\<lambda>(k, v). (ascii k, v)) TYPE_STYLE_BIAS) = ascii ` fst ` set TYPE_STYLE_BIAS"
    by (force simp: image_iff)
  with assms(1) have "map_of (map (\<lambda>(k, v). (ascii k, v)) TYPE_STYLE_BIAS) t = None"
    by (simp add: map_of_eq_None_iff)
  with assms(2) show ?thesis by (simp add: lookupBias_def)
qed

lemma baseStyle_getStyleVariant:
  "baseStyle (getStyleVariant a t) =
    (case lookupBias t of
       Own bias \<Rightarrow> pickStyle bias \<bar>hashString (styleKey a t)\<bar>
     | Inherited \<Rightarrow> None
     | Absent \<Rightarrow> pickStyle BASE_STYLES \<bar>hashString (styleKey a t)\<bar>)"
  by (simp add: getStyleVariant_def Let_def)

text \<open>
  Claim C2, as amended. For an entity type that is a key of \<open>TYPE_STYLE_BIAS\<close>, the base
  style is an element of that key's list; the list has three elements, except the one of
  \<open>pulsar\<close>, which has two. For an entity type that is neither a key of the table nor the
  name of a property inherited from \<open>Object.prototype\<close>, the base style is one of the eight
  styles of \<open>BASE_STYLES\<close>.
\<close>

theorem baseStyle_drawn_from_bias:
  "(\<forall>k bias. (k, bias) \<in> set TYPE_STYLE_BIAS \<and> t = ascii k \<longrightarrow>
      baseStyle (getStyleVariant a t) \<in> Some ` set bias
      \<and> (length bias = 3 \<or> k = ''pulsar'' \<and> length bias = 2))
   \<and> (t \<notin> ascii ` fst ` set TYPE_STYLE_BIAS \<and> t \<notin> ascii ` set OBJECT_PROTOTYPE_KEYS \<longrightarrow>
      baseStyle (getStyleVariant a t) \<in> Some ` set BASE_STYLES)"
proof (intro conjI allI impI)
  fix k bias
  assume h: "(k, bias) \<in> set TYPE_STYLE_BIAS \<and> t = ascii k"
  then have own: "lookupBias t = Own bias"
    using lookupBias_own by blast
  from h have shape: "bias \<noteq> [] \<and> (length bias = 3 \<or> k = ''pulsar'' \<and> length bias = 2)"
    using bias_lists_shape by blast
  show "baseStyle (getStyleVariant a t) \<in> Some ` set bias"
    using own shape pickStyle_member [of bias] by (simp add: baseStyle_getStyleVariant)
  show "length bias = 3 \<or> k = ''pulsar'' \<and> length bias = 2"
    using shape by simp
next
  assume "t \<notin> ascii ` fst ` set TYPE_STYLE_BIAS \<and> t \<notin> ascii ` set OBJECT_PROTOTYPE_KEYS"
  then have "lookupBias t = Absent"
    using lookupBias_absent by blast
  moreover have "BASE_STYLES \<noteq> []"
    by (simp add: BASE_STYLES_def)
  ultimately show "baseStyle (getStyleVariant a t) \<in> Some ` set BASE_STYLES"
    using pickStyle_member [of BASE_STYLES] by (simp add: baseStyle_getStyleVariant)
qed

theorem baseStyle_drawn_from_bias_witness:
  "(''galaxy'', [Swirl, Drift, Ripple]) \<in> set TYPE_STYLE_BIAS
   \<and> baseStyle (getStyleVariant (ascii ''swirl'') (ascii ''galaxy'')) \<in> Some ` set [Swirl, Drift, Ripple]
   \<and> ascii ''wormhole'' \<notin> ascii ` fst ` set TYPE_STYLE_BIAS
   \<and> ascii ''wormhole'' \<notin> ascii ` set OBJECT_PROTOTYPE_KEYS
   \<and> baseStyle (getStyleVariant (ascii ''swirl'') (ascii ''wormhole'')) \<in> Some ` set BASE_STYLES"
proof -
  have 1: "(''galaxy'', [Swirl, Drift, Ripple]) \<in> set TYPE_STYLE_BIAS"
    by (simp add: TYPE_STYLE_BIAS_def)
  have 2: "ascii ''wormhole'' \<notin> ascii ` fst ` set TYPE_STYLE_BIAS"
    by (simp add: TYPE_STYLE_BIAS_def ascii_def)
  have 3: "ascii ''wormhole'' \<notin> ascii ` set OBJECT_PROTOTYPE_KEYS"
    by (simp add: OBJECT_PROTOTYPE_KEYS_def ascii_def)
  show ?thesis
    using 1 2 3 baseStyle_drawn_from_bias [of "ascii ''galaxy''" "ascii ''swirl''"]
      baseStyle_drawn_from_bias [of "ascii ''wormhole''" "ascii ''swirl''"]
    by blast
qed

text \<open>
  The claim as first stated fails twice: the list declared for \<open>pulsar\<close> has two elements,
  not three, and the entity type \<open>constructor\<close>, which is not a key of the table, gets no
  base style at all (the lookup finds the inherited \<open>Object\<close> function).
\<close>

theorem bias_list_counterexample:
  "lookupBias (ascii ''pulsar'') = Own [Pulse, Flare] \<and> length [Pulse, Flare] \<noteq> (3 :: nat)
   \<and> lookupBias (ascii ''constructor'') = Inherited
   \<and> ascii ''constructor'' \<notin> ascii ` fst ` set TYPE_STYLE_BIAS
   \<and> baseStyle (getStyleVariant (ascii ''swirl'') (ascii ''constructor'')) \<notin> Some ` set BASE_STYLES"
  by (simp add: lookupBias_def TYPE_STYLE_BIAS_def OBJECT_PROTOTYPE_KEYS_def ascii_def
      baseStyle_getStyleVariant)

subsection \<open>Weather labels\<close>

text \<open>
  Claim C7. \<open>getWeatherText\<close> returns one of seven labels: CLEAR exactly for code 0, CLOUDY
  for 1 to 3, FOGGY for 45 to 48, RAINY for 51 to 67, SNOWY for 71 to 77, STORMY for 80
  to 99, and UNKNOWN for every other code.
\<close>

theorem getWeatherText_ranges:
  "(getWeatherText c = ''CLEAR'' \<longleftrightarrow> c = 0)
   \<and> (getWeatherText c = ''CLOUDY'' \<longleftrightarrow> 1 \<le> c \<and> c \<le> 3)
   \<and> (getWeatherText c = ''FOGGY'' \<longleftrightarrow> 45 \<le> c \<and> c \<le> 48)
   \<and> (getWeatherText c = ''RAINY'' \<longleftrightarrow> 51 \<le> c \<and> c \<le> 67)
   \<and> (getWeatherText c = ''SNOWY'' \<longleftrightarrow> 71 \<le> c \<and> c \<le> 77)
   \<and> (getWeatherText c = ''STORMY'' \<longleftrightarrow> 80 \<le> c \<and> c \<le> 99)
   \<and> (getWeatherText c = ''UNKNOWN'' \<longleftrightarrow>
        \<not> (c = 0 \<or> 1 \<le> c \<and> c \<le> 3 \<or> 45 \<le> c \<and> c \<le> 48 \<or> 51 \<le> c \<and> c \<le> 67
           \<or> 71 \<le> c \<and> c \<le> 77 \<or> 80 \<le> c \<and> c \<le> 99))
   \<and> getWeatherText c \<in>
        {''CLEAR'', ''CLOUDY'', ''FOGGY'', ''RAINY'', ''SNOWY'', ''STORMY'', ''UNKNOWN''}"
  by (simp add: getWeatherText_def)

theorem getWeatherText_ranges_witness:
  "getWeatherText 0 = ''CLEAR'' \<and> getWeatherText 2 = ''CLOUDY'' \<and> getWeatherText 45 = ''FOGGY''
   \<and> getWeatherText 67 = ''RAINY'' \<and> getWeatherText 75 = ''SNOWY'' \<and> getWeatherText 99 = ''STORMY''
   \<and> getWeatherText 4 = ''UNKNOWN'' \<and> getWeatherText 100 = ''UNKNOWN''
   \<and> getWeatherText (-1) = ''UNKNOWN''"
  using getWeatherText_ranges [of 0] getWeatherText_ranges [of 2] getWeatherText_ranges [of 45]
    getWeatherText_ranges [of 67] getWeatherText_ranges [of 75] getWeatherText_ranges [of 99]
    getWeatherText_ranges [of 4] getWeatherText_ranges [of 100] getWeatherText_ranges [of "-1"]
  by simp

subsection \<open>The auto-play machine\<close>

lemma playbackTrace_nonempty: "playbackTrace c ticks s \<noteq> []"
  by (cases ticks) simp_all









lemma autoPlay_append:
  "autoPlay c (xs @ ys) s =
     (case autoPlay c xs s of Inl e \<Rightarrow> Inl e | Inr s' \<Rightarrow> autoPlay c ys s')"
  by (induction xs arbitrary: s) (simp_all split: sum.splits)

lemma autoPlay_showing:
  assumes "currentEntityIndex s < length c" and "\<not> isTransitioning s"
    and "\<forall>t \<in> set ticks. t - lastSceneChange s < duration (c ! currentEntityIndex s)"
  shows "autoPlay c ticks s = Inr s"
  using assms by (induction ticks) (simp_all add: checkSceneChange_def Let_def)

lemma autoPlay_transitioning:
  assumes "currentEntityIndex s < length c" and "isTransitioning s"
    and "\<forall>t \<in> set (ticks @ [t']).
           t - lastSceneChange s < duration (c ! currentEntityIndex s) + 1000"
  shows "autoPlay c (ticks @ [t']) s =
     Inr (s \<lparr> transitionProgress :=
               (t' - lastSceneChange s - duration (c ! currentEntityIndex s)) / 1000 \<rparr>)"
  using assms
proof (induction ticks arbitrary: s)
  case Nil
  then show ?case by (simp add: checkSceneChange_def Let_def)
next
  case (Cons t ticks)
  let ?s = "s \<lparr> transitionProgress :=
      (t - lastSceneChange s - duration (c ! currentEntityIndex s)) / 1000 \<rparr>"
  from Cons.prems have step: "checkSceneChange c t s = Inr ?s"
    by (simp add: checkSceneChange_def Let_def)
  have "autoPlay c (ticks @ [t']) ?s =
     Inr (?s \<lparr> transitionProgress :=
               (t' - lastSceneChange ?s - duration (c ! currentEntityIndex ?s)) / 1000 \<rparr>)"
    using Cons.prems by (intro Cons.IH) simp_all
  with step show ?case by simp
qed

lemma duration_sampleEntity: "duration (sampleEntity d) = d"
  by (simp add: sampleEntity_def)

text \<open>The scenario of the specification, split at the ticks where the state changes.\<close>

lemma scenario_start:
  "autoPlay [sampleEntity 2000, sampleEntity 3000, sampleEntity 4000]
     (map (\<lambda>i. 16 * real i) [0..<126]) (mountState 0)
   = Inr \<lparr> currentEntityIndex = 0, nextEntityIndex = 1, transitionProgress = 0,
           isTransitioning = True, lastSceneChange = 0 \<rparr>"
proof -
  define c where "c = [sampleEntity 2000, sampleEntity 3000, sampleEntity 4000]"
  define A where "A = map (\<lambda>i. 16 * real i) [0..<125]"
  have c0: "currentEntityIndex (mountState 0) < length c"
    "duration (c ! currentEntityIndex (mountState 0)) = 2000"
    by (simp_all add: c_def mountState_def duration_sampleEntity)
  have split: "map (\<lambda>i. 16 * real i) [0..<126] = A @ [2000]"
    unfolding A_def using upt_Suc_append [of 0 125] by simp
  have "\<forall>t \<in> set A. t - lastSceneChange (mountState 0)
          < duration (c ! currentEntityIndex (mountState 0))"
    unfolding c0 by (auto simp: A_def mountState_def)
  then have "autoPlay c A (mountState 0) = Inr (mountState 0)"
    using c0 by (intro autoPlay_showing) (simp_all add: mountState_def)
  moreover have "checkSceneChange c 2000 (mountState 0) =
      Inr \<lparr> currentEntityIndex = 0, nextEntityIndex = 1, transitionProgress = 0,
           isTransitioning = True, lastSceneChange = 0 \<rparr>"
    using c0 by (simp add: checkSceneChange_def Let_def) (simp add: mountState_def)
  ultimately show ?thesis
    unfolding split c_def [symmetric] by (simp add: autoPlay_append)
qed



text \<open>On the 16 ms grid alone the last tick before 3000 is at 2992, and the commit falls at 3008.\<close>

lemma scenario_grid_only:
  "autoPlay [sampleEntity 2000, sampleEntity 3000, sampleEntity 4000]
     (map (\<lambda>i. 16 * real i) [0..<188]) (mountState 0)
   = Inr \<lparr> currentEntityIndex = 0, nextEntityIndex = 1, transitionProgress = 124 / 125,
           isTransitioning = True, lastSceneChange = 0 \<rparr>
   \<and> autoPlay [sampleEntity 2000, sampleEntity 3000, sampleEntity 4000]
     (map (\<lambda>i. 16 * real i) [0..<189]) (mountState 0)
   = Inr \<lparr> currentEntityIndex = 1, nextEntityIndex = 2, transitionProgress = 0,
           isTransitioning = False, lastSceneChange = 3008 \<rparr>"
proof -
  define c where "c = [sampleEntity 2000, sampleEntity 3000, sampleEntity 4000]"
  define A where "A = map (\<lambda>i. 16 * real i) [0..<126]"
  define B where "B = map (\<lambda>i. 16 * real i) [126..<187]"
  define s where "s = \<lparr> currentEntityIndex = 0, nextEntityIndex = 1, transitionProgress = 0,
           isTransitioning = True, lastSceneChange = 0 \<rparr>"
  have s: "currentEntityIndex s < length c" "isTransitioning s" "lastSceneChange s = 0"
    "duration (c ! currentEntityIndex s) = 2000"
    by (simp_all add: c_def s_def duration_sampleEntity)
  have split: "map (\<lambda>i. 16 * real i) [0..<188] = A @ (B @ [2992])"
  proof -
    have "[0..<188] = [0..<126] @ [126..<187] @ [187]"
      using upt_add_eq_append [of 0 126 62] upt_Suc_append [of 126 187] by simp
    then show ?thesis by (simp add: A_def B_def)
  qed
  have split': "map (\<lambda>i. 16 * real i) [0..<189] = (A @ (B @ [2992])) @ [3008]"
    using upt_Suc_append [of 0 188] split by simp
  have A: "autoPlay c A (mountState 0) = Inr s"
    unfolding c_def A_def s_def by (rule scenario_start)
  have "\<forall>t \<in> set (B @ [2992]).
          t - lastSceneChange s < duration (c ! currentEntityIndex s) + 1000"
    unfolding s by (auto simp: B_def)
  then have "autoPlay c (B @ [2992]) s =
      Inr (s \<lparr> transitionProgress :=
             (2992 - lastSceneChange s - duration (c ! currentEntityIndex s)) / 1000 \<rparr>)"
    using s by (intro autoPlay_transitioning) simp_all
  then have B: "autoPlay c (B @ [2992]) s = Inr (s \<lparr> transitionProgress := 124 / 125 \<rparr>)"
    unfolding s by simp
  have AB: "autoPlay c (A @ (B @ [2992])) (mountState 0)
      = Inr (s \<lparr> transitionProgress := 124 / 125 \<rparr>)"
    by (simp only: autoPlay_append [of c A] A B sum.case)
  have C: "autoPlay c [3008] (s \<lparr> transitionProgress := 124 / 125 \<rparr>) =
      Inr \<lparr> currentEntityIndex = 1, nextEntityIndex = 2, transitionProgress = 0,
           isTransitioning = False, lastSceneChange = 3008 \<rparr>"
    using s by (simp add: checkSceneChange_def Let_def) (simp add: s_def c_def)
  have ABC: "autoPlay c ((A @ (B @ [2992])) @ [3008]) (mountState 0) =
      Inr \<lparr> currentEntityIndex = 1, nextEntityIndex = 2, transitionProgress = 0,
           isTransitioning = False, lastSceneChange = 3008 \<rparr>"
    by (simp only: autoPlay_append [of c "A @ (B @ [2992])"] AB C sum.case)
  show ?thesis
    using AB ABC unfolding split split' c_def s_def by simp
qed












subsection \<open>Interactive mode\<close>







subsection \<open>The particle pool\<close>

lemma snd_createParticle_variant:
  "snd (createParticle rnd k w h (Some v) c) = k + 6"
  by (simp add: createParticle_def Let_def)

lemma growPool_result:
  "growPool rnd k w h v colors target ps =
     (ps @ map (\<lambda>j. fst (createParticle rnd (k + 6 * j) w h (Some v) (Some colors)))
              [0..<target - length ps],
      k + 6 * (target - length ps))"
proof (induction rnd k w h v colors target ps rule: growPool.induct)
  case (1 rnd k w h v colors target ps)
  show ?case
  proof (cases "length ps < target")
    case False
    then show ?thesis by (simp add: growPool.simps [of _ _ _ _ _ _ target ps])
  next
    case True
    let ?new = "\<lambda>j. fst (createParticle rnd (k + 6 * j) w h (Some v) (Some colors))"
    from True obtain d where d: "target - length ps = Suc d"
      by (cases "target - length ps") simp_all
    then have d': "target - length (ps @ [?new 0]) = d"
      by simp
    have shift: "map (\<lambda>j. fst (createParticle rnd (k + 6 + 6 * j) w h (Some v) (Some colors))) [0..<d]
        = map ?new [Suc 0..<Suc d]"
      by (simp add: map_Suc_upt [symmetric] add.assoc del: upt_Suc)
    have "growPool rnd k w h v colors target ps =
        growPool rnd (k + 6) w h v colors target (ps @ [?new 0])"
      using True by (simp add: growPool.simps [of _ k _ _ _ _ target ps] snd_createParticle_variant)
    also have "\<dots> = ((ps @ [?new 0]) @ map ?new [Suc 0..<Suc d], k + 6 + 6 * d)"
      using "1.IH" [OF True] d' shift by (simp add: snd_createParticle_variant)
    also have "(ps @ [?new 0]) @ map ?new [Suc 0..<Suc d] = ps @ map ?new [0..<Suc d]"
      by (simp add: upt_conv_Cons del: upt_Suc)
    finally show ?thesis using d by simp
  qed
qed

lemma shrinkPool_take: "shrinkPool target ps = take target ps"
proof (induction target ps rule: shrinkPool.induct)
  case (1 target ps)
  show ?case
  proof (cases "length ps > target")
    case False
    then show ?thesis by (simp add: shrinkPool.simps [of target ps])
  next
    case True
    then have "take target (butlast ps) = take target ps"
      by (simp add: take_butlast)
    with True "1.IH" show ?thesis
      by (simp add: shrinkPool.simps [of target ps])
  qed
qed

lemma adjustPool_result:
  "adjustPool rnd k w h v colors ps =
     (take (targetParticleCount v)
        (ps @ map (\<lambda>j. fst (createParticle rnd (k + 6 * j) w h (Some v) (Some colors)))
                 [0..<targetParticleCount v - length ps]),
      k + 6 * (targetParticleCount v - length ps))"
  by (simp only: adjustPool_def Let_def growPool_result shrinkPool_take prod.case)

lemma adjustPool_length:
  "length (fst (adjustPool rnd k w h v colors ps)) = targetParticleCount v"
  by (simp add: adjustPool_result)

text \<open>
  Claim C9, as amended. After the pool adjustment at the head of \<open>renderEntity\<close> the pool
  holds exactly max(40, floor(90 * densityMultiplier)) particles, the product being the
  double the multiplication yields. A pool that was shorter is kept and extended at its
  end by the particles \<open>createParticle\<close> spawns, one after the other, each taking six random
  draws; a pool that was longer keeps its first particles and gives up those at its end,
  without a draw.
\<close>

theorem renderEntity_pool_size:
  "length (fst (adjustPool rnd k w h v colors ps))
     = nat (max 40 \<lfloor>jsMul 90 (densityMultiplier v)\<rfloor>)
   \<and> (length ps \<le> nat (max 40 \<lfloor>jsMul 90 (densityMultiplier v)\<rfloor>) \<longrightarrow>
        fst (adjustPool rnd k w h v colors ps) =
          ps @ map (\<lambda>j. fst (createParticle rnd (k + 6 * j) w h (Some v) (Some colors)))
                   [0..<nat (max 40 \<lfloor>jsMul 90 (densityMultiplier v)\<rfloor>) - length ps])
   \<and> (nat (max 40 \<lfloor>jsMul 90 (densityMultiplier v)\<rfloor>) \<le> length ps \<longrightarrow>
        adjustPool rnd k w h v colors ps
          = (take (nat (max 40 \<lfloor>jsMul 90 (densityMultiplier v)\<rfloor>)) ps, k))"
  using adjustPool_length [of rnd k w h v colors ps]
  by (simp add: adjustPool_result targetParticleCount_def)

lemma hashString_a: "hashString (ascii ''a'') = 97"
  by (simp add: hashString_def hashStep_def js_shl_def toInt32_def ascii_def)

lemma densityMultiplier_a_star:
  "densityMultiplier (getStyleVariant (ascii ''a'') (ascii ''star''))
     = 3152519739159347 / 4503599627370496"
proof -
  have "styleKey (ascii ''a'') (ascii ''star'') = ascii ''a''"
    by (simp add: styleKey_def ascii_def)
  moreover have "takeBits 97 10 255 = 0"
    by (simp add: takeBits_def js_and_def js_sar_def toInt32_def jsDiv_def toDouble_def)
  moreover have "jsAdd (toDouble (7 / 10)) (jsMul 0 (toDouble (25 / 10)))
      = 3152519739159347 / 4503599627370496"
    by (simp add: double_eval)
  ultimately show ?thesis
    by (simp add: getStyleVariant_def Let_def hashString_a)
qed

lemma densityMultiplier_swirl_blackhole:
  "densityMultiplier (getStyleVariant (ascii ''swirl'') (ascii ''blackhole''))
     = 7629627604015899 / 9007199254740992"
  by (simp add: getStyleVariant_swirl_blackhole)

text \<open>
  The double product: \<open>90 * 0.7\<close> is \<open>62.99999999999999\<close>, below the 63 of exact arithmetic,
  and the product for ("swirl", "blackhole") lies between 76 and 77.
\<close>

lemma pool_products:
  "jsMul 90 (3152519739159347 / 4503599627370496) = 8866461766385663 / 140737488355328"
  "jsMul 90 (7629627604015899 / 9007199254740992) = 5364581909073679 / 70368744177664"
  by (simp_all add: double_eval)

theorem renderEntity_pool_size_witness:
  "length ([] :: Particle list)
     \<le> nat (max 40 \<lfloor>jsMul 90 (densityMultiplier (getStyleVariant (ascii ''a'') (ascii ''star'')))\<rfloor>)
   \<and> length (fst (adjustPool (\<lambda>i. 1 / 2) 0 800 600
        (getStyleVariant (ascii ''a'') (ascii ''star'')) samplePalette [])) = 62
   \<and> nat (max 40 \<lfloor>jsMul 90 (densityMultiplier (getStyleVariant (ascii ''swirl'') (ascii ''blackhole'')))\<rfloor>)
     \<le> length (replicate 200 (fst (createParticle (\<lambda>i. 1 / 2) 0 800 600 None None)))
   \<and> length (fst (adjustPool (\<lambda>i. 1 / 2) 0 800 600
        (getStyleVariant (ascii ''swirl'') (ascii ''blackhole'')) samplePalette
        (replicate 200 (fst (createParticle (\<lambda>i. 1 / 2) 0 800 600 None None))))) = 76"
  using renderEntity_pool_size [of "\<lambda>i. 1 / 2" 0 800 600
      "getStyleVariant (ascii ''a'') (ascii ''star'')" samplePalette "[]"]
    renderEntity_pool_size [of "\<lambda>i. 1 / 2" 0 800 600
      "getStyleVariant (ascii ''swirl'') (ascii ''blackhole'')" samplePalette
      "replicate 200 (fst (createParticle (\<lambda>i. 1 / 2) 0 800 600 None None))"]
  by (simp add: densityMultiplier_swirl_blackhole densityMultiplier_a_star pool_products)

text \<open>
  As first stated, with max(40, 90 * densityMultiplier) and no floor, the claim fails
  whenever the product is not an integer: for the variant of ("swirl", "blackhole") the
  pool holds 76 particles, and 90 * densityMultiplier lies strictly between 76 and 77.
\<close>

theorem pool_size_counterexample:
  "real (length (fst (adjustPool (\<lambda>i. 1 / 2) 0 800 600
      (getStyleVariant (ascii ''swirl'') (ascii ''blackhole'')) samplePalette [])))
   \<noteq> max 40 (jsMul 90 (densityMultiplier (getStyleVariant (ascii ''swirl'') (ascii ''blackhole''))))"
  by (simp add: adjustPool_length targetParticleCount_def densityMultiplier_swirl_blackhole
      pool_products)

subsection \<open>Particle update\<close>

lemma toDouble_small:
  "toDouble 1 = 1" "toDouble 2 = 2" "toDouble (1 / 2) = 1 / 2" "toDouble (3 / 2) = 3 / 2"
  by (simp_all add: double_eval)

lemma takeBits_unit: "0 \<le> takeBits h s 255 \<and> takeBits h s 255 \<le> 1"
proof -
  have "toInt32 255 = 255"
    by (simp add: toInt32_def)
  then have "0 \<le> js_and (js_sar h s) 255" "js_and (js_sar h s) 255 \<le> 255"
    by (simp_all add: js_and_def AND_upper2)
  then have "0 \<le> real_of_int (js_and (js_sar h s) 255) / 255"
    "real_of_int (js_and (js_sar h s) 255) / 255 \<le> 1"
    by simp_all
  then have "toDouble 0 \<le> takeBits h s 255" "takeBits h s 255 \<le> toDouble 1"
    unfolding takeBits_def jsDiv_def by (simp_all add: toDouble_mono)
  then show ?thesis
    by (simp add: toDouble_zero toDouble_small)
qed

lemma getStyleVariant_intensity:
  "1 / 2 \<le> intensity (getStyleVariant a t) \<and> intensity (getStyleVariant a t) \<le> 2"
proof -
  define b where "b = takeBits \<bar>hashString (styleKey a t)\<bar> 18 255"
  have b: "0 \<le> b" "b \<le> 1"
    using takeBits_unit [of "\<bar>hashString (styleKey a t)\<bar>" 18] by (simp_all add: b_def)
  have i: "intensity (getStyleVariant a t) = toDouble (1 / 2 + toDouble (b * (3 / 2)))"
    by (simp add: getStyleVariant_def Let_def b_def jsAdd_def jsMul_def toDouble_small)
  have "toDouble 0 \<le> toDouble (b * (3 / 2))" "toDouble (b * (3 / 2)) \<le> toDouble (3 / 2)"
    using b by (intro toDouble_mono; simp)+
  then have "0 \<le> toDouble (b * (3 / 2))" "toDouble (b * (3 / 2)) \<le> 3 / 2"
    by (simp_all add: toDouble_zero toDouble_small)
  then have "toDouble (1 / 2) \<le> toDouble (1 / 2 + toDouble (b * (3 / 2)))"
    "toDouble (1 / 2 + toDouble (b * (3 / 2))) \<le> toDouble 2"
    by (intro toDouble_mono; simp)+
  then show ?thesis
    by (simp add: i toDouble_small)
qed

lemma palette_pick: "paletteList colors ! (n mod 3) \<in> {primary colors, secondary colors, accent colors}"
proof -
  have "n mod 3 = 0 \<or> n mod 3 = 1 \<or> n mod 3 = 2"
    by linarith
  then show ?thesis by (auto simp: paletteList_def)
qed

lemma respawn_fields:
  "fst (respawn math_sin rnd k w h colors v p) =
     \<lparr> p_x = jsMul (rnd k) w, p_y = jsMul (rnd (k + 1)) h,
       p_vx = jsMul (jsSub (rnd (k + 2)) (1 / 2)) (speedMultiplier v),
       p_vy = jsMul (jsSub (rnd (k + 3)) (1 / 2)) (speedMultiplier v),
       p_life = p_maxLife p, p_maxLife = p_maxLife p, p_char = p_char p,
       p_color = paletteList colors
         ! (nat \<lfloor>jsMul \<bar>math_sin (jsAdd (real_of_int (seed v)) (p_maxLife p))\<bar> 3\<rfloor> mod 3) \<rparr>"
  by (simp add: respawn_def Let_def paletteList_def)

lemma advance_maxLife: "p_maxLife (advance v p) = p_maxLife p"
  by (simp add: advance_def Let_def)

lemma advance_life:
  "p_life (advance v p)
     = toDouble (p_life p - jsAdd (toDouble (4 / 10)) (jsMul (intensity v) (toDouble (2 / 10))))"
  by (simp add: advance_def Let_def jsSub_def)

lemma life_step_nonneg:
  assumes "0 \<le> intensity v"
  shows "0 \<le> jsAdd (toDouble (4 / 10)) (jsMul (intensity v) (toDouble (2 / 10)))"
proof -
  have a: "0 \<le> toDouble (4 / 10)" and b: "0 \<le> toDouble (2 / 10)"
    by (simp_all add: toDouble_nonneg)
  from assms b have "0 \<le> intensity v * toDouble (2 / 10)"
    by (rule mult_nonneg_nonneg)
  then have "0 \<le> jsMul (intensity v) (toDouble (2 / 10))"
    unfolding jsMul_def by (rule toDouble_nonneg)
  with a have "0 \<le> toDouble (4 / 10) + jsMul (intensity v) (toDouble (2 / 10))"
    by (rule add_nonneg_nonneg)
  then show ?thesis
    unfolding jsAdd_def by (rule toDouble_nonneg)
qed

lemma random_position:
  assumes "0 < w" and "toDouble w = w" and "0 \<le> r" and "r < 1"
  shows "0 \<le> jsMul r w" and "jsMul r w \<le> w"
proof -
  show "0 \<le> jsMul r w"
    unfolding jsMul_def using assms(1,3) by (intro toDouble_nonneg) simp
  have "r * w \<le> w"
    using assms(1,3,4) by (simp add: mult_left_le_one_le less_imp_le)
  then have "toDouble (r * w) \<le> toDouble w"
    by (rule toDouble_mono)
  then show "jsMul r w \<le> w"
    by (simp add: jsMul_def assms(2))
qed

lemma updateParticle_ok:
  assumes "0 < w" and "0 < h" and "toDouble w = w" and "toDouble h = h"
    and "\<forall>i. 0 \<le> rnd i \<and> rnd i < 1"
    and "p_life p \<le> p_maxLife p" and "0 < p_maxLife p" and "toDouble (p_maxLife p) = p_maxLife p"
    and "0 \<le> intensity v"
  shows "particleOk w h (fst (updateParticle math_sin rnd k w h colors v p))"
proof (cases "expiredOrOutside w h (advance v p)")
  case True
  have "0 \<le> jsMul (rnd k) w" "jsMul (rnd k) w \<le> w"
    using assms(1,3,5) by (simp_all add: random_position)
  moreover have "0 \<le> jsMul (rnd (k + 1)) h" "jsMul (rnd (k + 1)) h \<le> h"
    using assms(2,4,5) by (simp_all add: random_position)
  ultimately show ?thesis
    using True assms(7)
    by (simp add: updateParticle_def Let_def respawn_fields advance_maxLife particleOk_def)
next
  case False
  have "p_life p - jsAdd (toDouble (4 / 10)) (jsMul (intensity v) (toDouble (2 / 10)))
      \<le> p_maxLife p"
    using life_step_nonneg [OF assms(9)] assms(6) by simp
  then have "p_life (advance v p) \<le> toDouble (p_maxLife p)"
    unfolding advance_life by (rule toDouble_mono)
  then have "p_life (advance v p) \<le> p_maxLife (advance v p)"
    by (simp add: assms(8) advance_maxLife)
  with False show ?thesis
    by (auto simp: updateParticle_def Let_def expiredOrOutside_def particleOk_def)
qed

lemma updateParticle_respawned:
  assumes "expiredOrOutside w h (advance v p)"
  shows "p_x (fst (updateParticle math_sin rnd k w h colors v p)) = jsMul (rnd k) w
    \<and> p_y (fst (updateParticle math_sin rnd k w h colors v p)) = jsMul (rnd (k + 1)) h
    \<and> p_vx (fst (updateParticle math_sin rnd k w h colors v p))
        = jsMul (jsSub (rnd (k + 2)) (1 / 2)) (speedMultiplier v)
    \<and> p_vy (fst (updateParticle math_sin rnd k w h colors v p))
        = jsMul (jsSub (rnd (k + 3)) (1 / 2)) (speedMultiplier v)
    \<and> p_life (fst (updateParticle math_sin rnd k w h colors v p)) = p_maxLife p
    \<and> p_maxLife (fst (updateParticle math_sin rnd k w h colors v p)) = p_maxLife p
    \<and> p_char (fst (updateParticle math_sin rnd k w h colors v p)) = p_char p
    \<and> p_color (fst (updateParticle math_sin rnd k w h colors v p))
        \<in> {primary colors, secondary colors, accent colors}"
proof -
  have char: "p_char (advance v p) = p_char p"
    by (simp add: advance_def Let_def)
  show ?thesis
    using assms palette_pick [of colors]
    by (simp add: updateParticle_def Let_def respawn_fields advance_maxLife char)
qed

lemma updateParticle_kept:
  assumes "\<not> expiredOrOutside w h (advance v p)"
  shows "fst (updateParticle math_sin rnd k w h colors v p) = advance v p"
  using assms by (simp add: updateParticle_def Let_def)

lemma updateParticles_Cons:
  "updateParticles math_sin rnd k w h colors v (p # ps) =
     (fst (updateParticle math_sin rnd k w h colors v p)
        # fst (updateParticles math_sin rnd (snd (updateParticle math_sin rnd k w h colors v p))
                 w h colors v ps),
      snd (updateParticles math_sin rnd (snd (updateParticle math_sin rnd k w h colors v p))
             w h colors v ps))"
  by (simp add: Let_def case_prod_beta)

lemma updateParticles_length:
  "length (fst (updateParticles math_sin rnd k w h colors v ps)) = length ps"
  by (induction ps arbitrary: k) (simp_all add: updateParticles_Cons del: updateParticles.simps(2))

lemma updateParticles_pointwise:
  "i < length ps \<Longrightarrow>
     \<exists>j. fst (updateParticles math_sin rnd k w h colors v ps) ! i
          = fst (updateParticle math_sin rnd j w h colors v (ps ! i))"
proof (induction ps arbitrary: k i)
  case Nil
  then show ?case by simp
next
  case (Cons p ps)
  show ?case
  proof (cases i)
    case 0
    then show ?thesis
      by (auto simp: updateParticles_Cons simp del: updateParticles.simps(2))
  next
    case (Suc n)
    with Cons.prems have "n < length ps" by simp
    from Cons.IH [OF this, of "snd (updateParticle math_sin rnd k w h colors v p)"]
    show ?thesis using Suc
      by (simp add: updateParticles_Cons del: updateParticles.simps(2))
  qed
qed

lemma updateParticles_all_ok:
  assumes "0 < w" and "0 < h" and "toDouble w = w" and "toDouble h = h"
    and "\<forall>i. 0 \<le> rnd i \<and> rnd i < 1" and "0 \<le> intensity v"
    and "\<forall>p \<in> set ps. p_life p \<le> p_maxLife p \<and> 0 < p_maxLife p
           \<and> toDouble (p_maxLife p) = p_maxLife p"
  shows "\<forall>q \<in> set (fst (updateParticles math_sin rnd k w h colors v ps)). particleOk w h q"
  using assms(7)
proof (induction ps arbitrary: k)
  case Nil
  then show ?case by simp
next
  case (Cons p ps)
  from Cons.prems have p: "p_life p \<le> p_maxLife p" "0 < p_maxLife p"
      "toDouble (p_maxLife p) = p_maxLife p"
    and rest: "\<forall>p \<in> set ps. p_life p \<le> p_maxLife p \<and> 0 < p_maxLife p
           \<and> toDouble (p_maxLife p) = p_maxLife p"
    by simp_all
  have "particleOk w h (fst (updateParticle math_sin rnd k w h colors v p))"
    using updateParticle_ok [OF assms(1-5) p assms(6)] .
  with Cons.IH [OF rest] show ?case
    by (simp add: updateParticles_Cons del: updateParticles.simps(2))
qed

text \<open>
  Claim C10. For a canvas of positive width and height, random draws in [0, 1), any
  palette and any variant \<open>getStyleVariant\<close> returns (\<open>updateParticles\<close> receives no other;
  width, height and every maxLife are doubles, as every number of the program is): if
  every particle entering \<open>updateParticles\<close> has life at most maxLife and maxLife above 0,
  then every particle leaving it has life above 0 and at most maxLife and lies within
  the canvas. A particle that expired or left the canvas during the step is respawned in
  place: its position is drawn inside the canvas, its life is its maxLife, its velocity is
  drawn anew and its colour is one of the three palette colours; any other particle is
  just advanced.
\<close>

theorem updateParticles_alive_in_bounds:
  assumes "0 < w" and "0 < h" and "toDouble w = w" and "toDouble h = h"
    and "\<forall>i. 0 \<le> rnd i \<and> rnd i < 1"
    and "\<forall>p \<in> set ps. p_life p \<le> p_maxLife p \<and> 0 < p_maxLife p
           \<and> toDouble (p_maxLife p) = p_maxLife p"
  shows "let v = getStyleVariant style entityType;
             out = fst (updateParticles math_sin rnd k w h colors v ps)
    in length out = length ps
    \<and> (\<forall>q \<in> set out.
          0 < p_life q \<and> p_life q \<le> p_maxLife q
          \<and> 0 \<le> p_x q \<and> p_x q \<le> w \<and> 0 \<le> p_y q \<and> p_y q \<le> h)
    \<and> (\<forall>i < length ps. \<exists>j.
          (expiredOrOutside w h (advance v (ps ! i)) \<longrightarrow>
             p_x (out ! i) = jsMul (rnd j) w
             \<and> p_y (out ! i) = jsMul (rnd (j + 1)) h
             \<and> p_vx (out ! i) = jsMul (jsSub (rnd (j + 2)) (1 / 2)) (speedMultiplier v)
             \<and> p_vy (out ! i) = jsMul (jsSub (rnd (j + 3)) (1 / 2)) (speedMultiplier v)
             \<and> p_life (out ! i) = p_maxLife (ps ! i)
             \<and> p_maxLife (out ! i) = p_maxLife (ps ! i)
             \<and> p_char (out ! i) = p_char (ps ! i)
             \<and> p_color (out ! i) \<in> {primary colors, secondary colors, accent colors})
          \<and> (\<not> expiredOrOutside w h (advance v (ps ! i)) \<longrightarrow> out ! i = advance v (ps ! i)))"
proof -
  define v where "v = getStyleVariant style entityType"
  define out where "out = fst (updateParticles math_sin rnd k w h colors v ps)"
  have int: "0 \<le> intensity v"
    using getStyleVariant_intensity [of style entityType] by (simp add: v_def)
  have len: "length out = length ps"
    unfolding out_def by (rule updateParticles_length)
  have ok: "0 < p_life q \<and> p_life q \<le> p_maxLife q
          \<and> 0 \<le> p_x q \<and> p_x q \<le> w \<and> 0 \<le> p_y q \<and> p_y q \<le> h" if "q \<in> set out" for q
  proof -
    from that have "particleOk w h q"
      using updateParticles_all_ok [OF assms(1-5) int assms(6)] unfolding out_def by blast
    then show ?thesis by (simp add: particleOk_def)
  qed
  have each: "\<exists>j.
          (expiredOrOutside w h (advance v (ps ! i)) \<longrightarrow>
             p_x (out ! i) = jsMul (rnd j) w
             \<and> p_y (out ! i) = jsMul (rnd (j + 1)) h
             \<and> p_vx (out ! i) = jsMul (jsSub (rnd (j + 2)) (1 / 2)) (speedMultiplier v)
             \<and> p_vy (out ! i) = jsMul (jsSub (rnd (j + 3)) (1 / 2)) (speedMultiplier v)
             \<and> p_life (out ! i) = p_maxLife (ps ! i)
             \<and> p_maxLife (out ! i) = p_maxLife (ps ! i)
             \<and> p_char (out ! i) = p_char (ps ! i)
             \<and> p_color (out ! i) \<in> {primary colors, secondary colors, accent colors})
          \<and> (\<not> expiredOrOutside w h (advance v (ps ! i)) \<longrightarrow> out ! i = advance v (ps ! i))"
    if "i < length ps" for i
  proof -
    from that obtain j where j: "out ! i = fst (updateParticle math_sin rnd j w h colors v (ps ! i))"
      unfolding out_def using updateParticles_pointwise by blast
    show ?thesis
      unfolding j
      using updateParticle_respawned [of w h v "ps ! i" math_sin rnd j colors]
        updateParticle_kept [of w h v "ps ! i" math_sin rnd j colors]
      by (intro exI [of _ j]) blast
  qed
  show ?thesis
    unfolding Let_def v_def [symmetric] out_def [symmetric]
    using len ok each by blast
qed

lemma life_step_swirl_blackhole:
  "jsSub 50 (jsAdd (toDouble (2 / 5))
     (jsMul (6569957103458135 / 4503599627370496) (toDouble (1 / 5))))
   = 6939517190527655 / 140737488355328"
  "(jsSub (1 / 4) (jsAdd (toDouble (2 / 5))
     (jsMul (6569957103458135 / 4503599627370496) (toDouble (1 / 5)))) \<le> 0) = True"
  by (simp_all add: double_eval)

lemma resting_position:
  "jsAdd 400 (jsMul 0 s) = 400" "jsAdd 300 (jsMul 0 s) = 300"
  by (simp_all add: jsMul_def jsAdd_def toDouble_zero) (simp_all add: double_eval)

theorem updateParticles_alive_in_bounds_witness:
  "(0 :: real) < 800 \<and> (0 :: real) < 600 \<and> toDouble 800 = 800 \<and> toDouble 600 = 600
   \<and> (0 :: real) \<le> 1 / 4 \<and> (1 / 4 :: real) < 1
   \<and> p_life (restingParticle 50) \<le> p_maxLife (restingParticle 50)
   \<and> 0 < p_maxLife (restingParticle 50)
   \<and> p_life (restingParticle (1 / 4)) \<le> p_maxLife (restingParticle (1 / 4))
   \<and> 0 < p_maxLife (restingParticle (1 / 4))
   \<and> toDouble (p_maxLife (restingParticle 50)) = p_maxLife (restingParticle 50)
   \<and> length (fst (updateParticles (\<lambda>a. 0) (\<lambda>i. 1 / 4) 0 800 600 samplePalette
         (getStyleVariant (ascii ''swirl'') (ascii ''blackhole''))
         [restingParticle 50, restingParticle (1 / 4)])) = 2
   \<and> map p_life (fst (updateParticles (\<lambda>a. 0) (\<lambda>i. 1 / 4) 0 800 600 samplePalette
         (getStyleVariant (ascii ''swirl'') (ascii ''blackhole''))
         [restingParticle 50, restingParticle (1 / 4)]))
      = [6939517190527655 / 140737488355328, 100]"
proof -
  have dbl: "toDouble 800 = 800" "toDouble 600 = 600" "toDouble 100 = 100"
    by (simp_all add: double_eval)
  have h: "(0 :: real) < 800" "(0 :: real) < 600" "toDouble 800 = 800" "toDouble 600 = 600"
    "\<forall>i. (0 :: real) \<le> (\<lambda>i. 1 / 4) i \<and> (\<lambda>i. 1 / 4 :: real) i < 1"
    "\<forall>p \<in> set [restingParticle 50, restingParticle (1 / 4)].
         p_life p \<le> p_maxLife p \<and> 0 < p_maxLife p \<and> toDouble (p_maxLife p) = p_maxLife p"
    by (simp_all add: restingParticle_def dbl)
  have len: "length (fst (updateParticles (\<lambda>a. 0) (\<lambda>i. 1 / 4) 0 800 600 samplePalette
         (getStyleVariant (ascii ''swirl'') (ascii ''blackhole''))
         [restingParticle 50, restingParticle (1 / 4)])) = 2"
    using updateParticles_alive_in_bounds [OF h, of "ascii ''swirl''" "ascii ''blackhole''"
        "\<lambda>a. 0" 0 samplePalette]
    by (simp add: Let_def)
  have run: "map p_life (fst (updateParticles (\<lambda>a. 0) (\<lambda>i. 1 / 4) 0 800 600 samplePalette
         (getStyleVariant (ascii ''swirl'') (ascii ''blackhole''))
         [restingParticle 50, restingParticle (1 / 4)]))
      = [6939517190527655 / 140737488355328, 100]"
    by (simp add: getStyleVariant_swirl_blackhole restingParticle_def updateParticle_def
        advance_def expiredOrOutside_def respawn_def Let_def life_step_swirl_blackhole
        resting_position)
  from h(6) have parts: "p_life (restingParticle 50) \<le> p_maxLife (restingParticle 50)"
    "0 < p_maxLife (restingParticle 50)"
    "p_life (restingParticle (1 / 4)) \<le> p_maxLife (restingParticle (1 / 4))"
    "0 < p_maxLife (restingParticle (1 / 4))"
    "toDouble (p_maxLife (restingParticle 50)) = p_maxLife (restingParticle 50)"
    by simp_all
  show ?thesis
    using h(1-4) parts len run by simp
qed

subsection \<open>Dithering\<close>

lemma toUint8Clamped_le: "toUint8Clamped v \<le> 255"
proof (cases "v \<le> 0 \<or> v \<ge> 255")
  case True
  then show ?thesis by (auto simp: toUint8Clamped_def)
next
  case False
  then have "0 < v" "v < 255" by simp_all
  then have "0 \<le> \<lfloor>v\<rfloor>" "\<lfloor>v\<rfloor> < 255"
    by (simp_all add: floor_less_iff)
  then have "roundHalfEven v \<le> 255"
    using roundHalfEven_cases [of v] by linarith
  then have "nat (roundHalfEven v) \<le> 255"
    by linarith
  with False show ?thesis by (simp add: toUint8Clamped_def)
qed

lemma ditheredByte_at:
  assumes "c < 4"
  shows "ditheredByte t a w data (4 * q + c) =
    (if c = 3 then data ! (4 * q + c)
     else if luma (data ! (4 * q)) (data ! (4 * q + 1)) (data ! (4 * q + 2))
              > bayerThreshold (q mod w) (q div w)
     then tintedByte (data ! (4 * q + c))
            (if c = 0 then rgb_r t else if c = 1 then rgb_g t else rgb_b t)
            (if c = 0 then rgb_r a else if c = 1 then rgb_g a else rgb_b a)
            (jsDiv (luma (data ! (4 * q)) (data ! (4 * q + 1)) (data ! (4 * q + 2))) 255)
     else darkenedByte (data ! (4 * q + c)))"
proof -
  from assms have "(4 * q + c) div 4 = q" "(4 * q + c) mod 4 = c"
    by simp_all
  then show ?thesis
    unfolding ditheredByte_def Let_def by (simp only:)
qed

lemma ditherPixel_updates:
  assumes "buf ! (4 * q) = data ! (4 * q)" and "buf ! (4 * q + 1) = data ! (4 * q + 1)"
    and "buf ! (4 * q + 2) = data ! (4 * q + 2)"
    and "4 * q + 3 < length buf" and "x < w" and "q = y * w + x"
  shows "ditherPixel t a w x y buf =
    buf[4 * q := ditheredByte t a w data (4 * q),
        4 * q + 1 := ditheredByte t a w data (4 * q + 1),
        4 * q + 2 := ditheredByte t a w data (4 * q + 2)]"
proof -
  define gray where "gray = luma (data ! (4 * q)) (data ! (4 * q + 1)) (data ! (4 * q + 2))"
  from assms(5,6) have yx: "q div w = y" "q mod w = x"
    by simp_all
  have i: "(y * w + x) * 4 = 4 * q"
    using assms(6) by simp
  have b0: "ditheredByte t a w data (4 * q) =
      (if gray > bayerThreshold x y
       then tintedByte (data ! (4 * q)) (rgb_r t) (rgb_r a) (jsDiv gray 255)
       else darkenedByte (data ! (4 * q)))"
    using ditheredByte_at [of 0 t a w data q] by (simp add: yx gray_def)
  have b1: "ditheredByte t a w data (4 * q + 1) =
      (if gray > bayerThreshold x y
       then tintedByte (data ! (4 * q + 1)) (rgb_g t) (rgb_g a) (jsDiv gray 255)
       else darkenedByte (data ! (4 * q + 1)))"
    using ditheredByte_at [of 1 t a w data q] by (simp add: yx gray_def)
  have b2: "ditheredByte t a w data (4 * q + 2) =
      (if gray > bayerThreshold x y
       then tintedByte (data ! (4 * q + 2)) (rgb_b t) (rgb_b a) (jsDiv gray 255)
       else darkenedByte (data ! (4 * q + 2)))"
    using ditheredByte_at [of 2 t a w data q] by (simp add: yx gray_def)
  have g: "luma (buf ! (4 * q)) (buf ! (4 * q + 1)) (buf ! (4 * q + 2)) = gray"
    by (simp only: assms(1-3) gray_def)
  have r1: "buf[4 * q := v] ! (4 * q + 1) = data ! (4 * q + 1)" for v
    using assms(2) by simp
  have r2: "buf[4 * q := v, 4 * q + 1 := v'] ! (4 * q + 2) = data ! (4 * q + 2)" for v v'
    using assms(3) by simp
  have "ditherPixel t a w x y buf =
      (if gray > bayerThreshold x y then
         buf[4 * q := tintedByte (buf ! (4 * q)) (rgb_r t) (rgb_r a) (jsDiv gray 255),
             4 * q + 1 := tintedByte
               (buf[4 * q := tintedByte (buf ! (4 * q)) (rgb_r t) (rgb_r a) (jsDiv gray 255)]
                  ! (4 * q + 1)) (rgb_g t) (rgb_g a) (jsDiv gray 255),
             4 * q + 2 := tintedByte
               (buf[4 * q := tintedByte (buf ! (4 * q)) (rgb_r t) (rgb_r a) (jsDiv gray 255),
                    4 * q + 1 := tintedByte
                      (buf[4 * q := tintedByte (buf ! (4 * q)) (rgb_r t) (rgb_r a) (jsDiv gray 255)]
                         ! (4 * q + 1)) (rgb_g t) (rgb_g a) (jsDiv gray 255)]
                  ! (4 * q + 2)) (rgb_b t) (rgb_b a) (jsDiv gray 255)]
       else
         buf[4 * q := darkenedByte (buf ! (4 * q)),
             4 * q + 1 := darkenedByte (buf[4 * q := darkenedByte (buf ! (4 * q))] ! (4 * q + 1)),
             4 * q + 2 := darkenedByte
               (buf[4 * q := darkenedByte (buf ! (4 * q)),
                    4 * q + 1 := darkenedByte (buf[4 * q := darkenedByte (buf ! (4 * q))]
                       ! (4 * q + 1))] ! (4 * q + 2))])"
    unfolding ditherPixel_def i Let_def g by (rule refl)
  also have "\<dots> =
      (if gray > bayerThreshold x y then
         buf[4 * q := tintedByte (data ! (4 * q)) (rgb_r t) (rgb_r a) (jsDiv gray 255),
             4 * q + 1 := tintedByte (data ! (4 * q + 1)) (rgb_g t) (rgb_g a) (jsDiv gray 255),
             4 * q + 2 := tintedByte (data ! (4 * q + 2)) (rgb_b t) (rgb_b a) (jsDiv gray 255)]
       else
         buf[4 * q := darkenedByte (data ! (4 * q)),
             4 * q + 1 := darkenedByte (data ! (4 * q + 1)),
             4 * q + 2 := darkenedByte (data ! (4 * q + 2))])"
    by (simp only: r1 r2 assms(1))
  also have "\<dots> =
      buf[4 * q := ditheredByte t a w data (4 * q),
          4 * q + 1 := ditheredByte t a w data (4 * q + 1),
          4 * q + 2 := ditheredByte t a w data (4 * q + 2)]"
  proof (cases "gray > bayerThreshold x y")
    case True
    then show ?thesis by (simp only: b0 b1 b2 if_True)
  next
    case False
    then show ?thesis by (simp only: b0 b1 b2 if_False)
  qed
  finally show ?thesis .
qed


lemma ditherPixel_step:
  assumes inv: "ditheredUpTo t a w data q buf" and "x < w" and "q = y * w + x"
    and room: "4 * q + 3 < length data"
  shows "ditheredUpTo t a w data (Suc q) (ditherPixel t a w x y buf)"
proof -
  from inv have len: "length buf = length data"
    and rd: "\<And>j. j < length data \<Longrightarrow>
        buf ! j = (if j < 4 * q then ditheredByte t a w data j else data ! j)"
    by (simp_all add: ditheredUpTo_def)
  have reads: "buf ! (4 * q) = data ! (4 * q)" "buf ! (4 * q + 1) = data ! (4 * q + 1)"
    "buf ! (4 * q + 2) = data ! (4 * q + 2)" "buf ! (4 * q + 3) = data ! (4 * q + 3)"
    using rd room by simp_all
  have room': "4 * q + 3 < length buf"
    using room len by simp
  note upd = ditherPixel_updates [OF reads(1-3) room' assms(2,3), of t a]
  have alpha: "ditheredByte t a w data (4 * q + 3) = data ! (4 * q + 3)"
    using ditheredByte_at [of 3 t a w data q] by simp
  have "ditherPixel t a w x y buf ! j
      = (if j < 4 * Suc q then ditheredByte t a w data j else data ! j)"
    if j: "j < length data" for j
  proof -
    consider (before) "j < 4 * q" | (r) "j = 4 * q" | (g) "j = 4 * q + 1" | (b) "j = 4 * q + 2"
      | (al) "j = 4 * q + 3" | (after) "4 * q + 4 \<le> j"
      by linarith
    then show ?thesis
    proof cases
      case before
      then show ?thesis using rd [OF j] by (simp add: upd)
    next
      case r
      then show ?thesis using room' by (simp add: upd)
    next
      case g
      then show ?thesis using room' by (simp add: upd)
    next
      case b
      then show ?thesis using room' by (simp add: upd)
    next
      case al
      then show ?thesis using reads(4) alpha by (simp add: upd)
    next
      case after
      then show ?thesis using rd [OF j] by (simp add: upd)
    qed
  qed
  then show ?thesis
    using len by (simp add: ditheredUpTo_def upd)
qed

lemma ditherColumns_inv:
  "x \<le> w \<Longrightarrow> ditheredUpTo t a w data (y * w + x) buf \<Longrightarrow> 4 * (y * w + w) \<le> length data
     \<Longrightarrow> ditheredUpTo t a w data (y * w + w) (ditherColumns t a w y x buf)"
proof (induction t a w y x buf rule: ditherColumns.induct)
  case (1 t a w y x buf)
  show ?case
  proof (cases "x < w")
    case False
    with "1.prems" have "x = w" by simp
    with "1.prems" show ?thesis
      by (simp add: ditherColumns.simps [of t a w y w buf])
  next
    case True
    then have "4 * (y * w + x) + 3 < length data"
      using "1.prems"(3) by simp
    from ditherPixel_step [OF "1.prems"(2) True refl this]
    have "ditheredUpTo t a w data (y * w + (x + 1)) (ditherPixel t a w x y buf)"
      by simp
    moreover from True have "x + 1 \<le> w" by simp
    ultimately have "ditheredUpTo t a w data (y * w + w)
        (ditherColumns t a w y (x + 1) (ditherPixel t a w x y buf))"
      using "1.IH" [OF True] "1.prems"(3) by blast
    with True show ?thesis
      by (simp add: ditherColumns.simps [of t a w y x buf])
  qed
qed

lemma ditherRows_inv:
  "y \<le> h \<Longrightarrow> ditheredUpTo t a w data (y * w) buf \<Longrightarrow> length data = w * h * 4
     \<Longrightarrow> ditheredUpTo t a w data (h * w) (ditherRows t a w h y buf)"
proof (induction t a w h y buf rule: ditherRows.induct)
  case (1 t a w h y buf)
  show ?case
  proof (cases "y < h")
    case False
    with "1.prems" have "y = h" by simp
    with "1.prems" show ?thesis
      by (simp add: ditherRows.simps [of t a w h h buf])
  next
    case True
    then have "(y + 1) * w \<le> h * w"
      by (intro mult_le_mono1) simp
    then have room: "4 * (y * w + w) \<le> length data"
      using "1.prems"(3) by (simp add: algebra_simps)
    have "ditheredUpTo t a w data (y * w + w) (ditherColumns t a w y 0 buf)"
      using "1.prems"(2) room by (intro ditherColumns_inv) simp_all
    then have "ditheredUpTo t a w data ((y + 1) * w) (ditherColumns t a w y 0 buf)"
      by (simp add: algebra_simps)
    moreover from True have "y + 1 \<le> h" by simp
    ultimately have "ditheredUpTo t a w data (h * w)
        (ditherRows t a w h (y + 1) (ditherColumns t a w y 0 buf))"
      using "1.IH" [OF True] "1.prems"(3) by blast
    with True show ?thesis
      by (simp add: ditherRows.simps [of t a w h y buf])
  qed
qed

lemma applyEnhancedDithering_bytes:
  assumes "length data = w * h * 4"
  shows "length (applyEnhancedDithering data w h colors) = length data"
    and "j < length data \<Longrightarrow>
      applyEnhancedDithering data w h colors ! j
        = ditheredByte (hexToRgb (secondary colors)) (hexToRgb (accent colors)) w data j"
proof -
  let ?t = "hexToRgb (secondary colors)" and ?a = "hexToRgb (accent colors)"
  have "ditheredUpTo ?t ?a w data (0 * w) data"
    by (simp add: ditheredUpTo_def)
  then have inv: "ditheredUpTo ?t ?a w data (h * w) (ditherRows ?t ?a w h 0 data)"
    using assms by (intro ditherRows_inv) simp_all
  have all: "4 * (h * w) = length data"
    using assms by simp
  from inv show "length (applyEnhancedDithering data w h colors) = length data"
    by (simp only: ditheredUpTo_def applyEnhancedDithering_def)
  assume j: "j < length data"
  with all have "j < 4 * (h * w)"
    by simp
  moreover from inv j have "ditherRows ?t ?a w h 0 data ! j
      = (if j < 4 * (h * w) then ditheredByte ?t ?a w data j else data ! j)"
    unfolding ditheredUpTo_def by blast
  ultimately show "applyEnhancedDithering data w h colors ! j = ditheredByte ?t ?a w data j"
    by (simp only: applyEnhancedDithering_def if_True)
qed

lemma hexToRgb_sample:
  "hexToRgb (secondary samplePalette) = \<lparr> rgb_r = 136, rgb_g = 204, rgb_b = 255 \<rparr>"
  "hexToRgb (accent samplePalette) = \<lparr> rgb_r = 255, rgb_g = 170, rgb_b = 0 \<rparr>"
  by (simp_all add: samplePalette_def hexToRgb_def hexDigit_def ascii_def Let_def)

lemma ditherColumns_3:
  "ditherColumns t a 3 y 0 d
     = ditherPixel t a 3 2 y (ditherPixel t a 3 1 y (ditherPixel t a 3 0 y d))"
  by (simp add: ditherColumns.simps numeral_2_eq_2)

lemma ditherRows_3_2:
  "ditherRows t a 3 2 0 d = ditherColumns t a 3 1 0 (ditherColumns t a 3 0 0 d)"
  by (simp add: ditherRows.simps)

lemma dithering_sample_pixel0:
  "ditherPixel \<lparr> rgb_r = 136, rgb_g = 204, rgb_b = 255 \<rparr>
     \<lparr> rgb_r = 255, rgb_g = 170, rgb_b = 0 \<rparr> 3 0 0
     [255, 255, 255, 255, 218, 58, 248, 255, 0, 0, 0, 255,
      200, 100, 50, 255, 11, 13, 220, 128, 1, 2, 3, 4]
   = [231, 236, 230, 255, 218, 58, 248, 255, 0, 0, 0, 255,
      200, 100, 50, 255, 11, 13, 220, 128, 1, 2, 3, 4]"
proof -
  have gray: "luma 255 255 255 = 255"
    by (simp add: luma_def double_eval)
  have threshold: "bayerThreshold 0 0 = 0"
    by (simp add: bayerThreshold_def ditherMatrix_def double_eval)
  have strength: "jsDiv (255) 255 = 1"
    by (simp add: double_eval)
  have bytes:
    "tintedByte 255 136 255 (1) = 231"
    "tintedByte 255 204 170 (1) = 236"
    "tintedByte 255 255 0 (1) = 230"
    by (simp_all add: tintedByte_def toUint8Clamped_def double_eval)
  show ?thesis
    by (simp add: ditherPixel_def Let_def gray threshold strength bytes)
qed

lemma dithering_sample_pixel1:
  "ditherPixel \<lparr> rgb_r = 136, rgb_g = 204, rgb_b = 255 \<rparr>
     \<lparr> rgb_r = 255, rgb_g = 170, rgb_b = 0 \<rparr> 3 1 0
     [231, 236, 230, 255, 218, 58, 248, 255, 0, 0, 0, 255,
      200, 100, 50, 255, 11, 13, 220, 128, 1, 2, 3, 4]
   = [231, 236, 230, 255, 193, 90, 225, 255, 0, 0, 0, 255,
      200, 100, 50, 255, 11, 13, 220, 128, 1, 2, 3, 4]"
proof -
  have gray: "luma 218 58 248 = 8972014882652161 / 70368744177664"
    by (simp add: luma_def double_eval)
  have threshold: "bayerThreshold (Suc 0) 0 = 255 / 2"
    by (simp add: bayerThreshold_def ditherMatrix_def double_eval)
  have strength: "jsDiv (8972014882652161 / 70368744177664) 255 = 4503599627370497 / 9007199254740992"
    by (simp add: double_eval)
  have bytes:
    "tintedByte 218 136 255 (4503599627370497 / 9007199254740992) = 193"
    "tintedByte 58 204 170 (4503599627370497 / 9007199254740992) = 90"
    "tintedByte 248 255 0 (4503599627370497 / 9007199254740992) = 225"
    by (simp_all add: tintedByte_def toUint8Clamped_def double_eval)
  show ?thesis
    by (simp add: ditherPixel_def Let_def gray threshold strength bytes)
qed

lemma dithering_sample_pixel2:
  "ditherPixel \<lparr> rgb_r = 136, rgb_g = 204, rgb_b = 255 \<rparr>
     \<lparr> rgb_r = 255, rgb_g = 170, rgb_b = 0 \<rparr> 3 2 0
     [231, 236, 230, 255, 193, 90, 225, 255, 0, 0, 0, 255,
      200, 100, 50, 255, 11, 13, 220, 128, 1, 2, 3, 4]
   = [231, 236, 230, 255, 193, 90, 225, 255, 0, 0, 0, 255,
      200, 100, 50, 255, 11, 13, 220, 128, 1, 2, 3, 4]"
proof -
  have gray: "luma 0 0 0 = 0"
    by (simp add: luma_def double_eval)
  have threshold: "bayerThreshold 2 0 = 255 / 8"
    by (simp add: bayerThreshold_def ditherMatrix_def double_eval)
  have bytes:
    "darkenedByte 0 = 0"
    by (simp_all add: darkenedByte_def toUint8Clamped_def double_eval)
  show ?thesis
    by (simp add: ditherPixel_def Let_def gray threshold bytes)
qed

lemma dithering_sample_pixel3:
  "ditherPixel \<lparr> rgb_r = 136, rgb_g = 204, rgb_b = 255 \<rparr>
     \<lparr> rgb_r = 255, rgb_g = 170, rgb_b = 0 \<rparr> 3 0 1
     [231, 236, 230, 255, 193, 90, 225, 255, 0, 0, 0, 255,
      200, 100, 50, 255, 11, 13, 220, 128, 1, 2, 3, 4]
   = [231, 236, 230, 255, 193, 90, 225, 255, 0, 0, 0, 255,
      30, 15, 8, 255, 11, 13, 220, 128, 1, 2, 3, 4]"
proof -
  have gray: "luma 200 100 50 = 8739798026865869 / 70368744177664"
    by (simp add: luma_def double_eval)
  have threshold: "bayerThreshold 0 (Suc 0) = 765 / 4"
    by (simp add: bayerThreshold_def ditherMatrix_def double_eval)
  have bytes:
    "darkenedByte 200 = 30"
    "darkenedByte 100 = 15"
    "darkenedByte 50 = 8"
    by (simp_all add: darkenedByte_def toUint8Clamped_def double_eval)
  show ?thesis
    by (simp add: ditherPixel_def Let_def gray threshold bytes)
qed

lemma dithering_sample_pixel4:
  "ditherPixel \<lparr> rgb_r = 136, rgb_g = 204, rgb_b = 255 \<rparr>
     \<lparr> rgb_r = 255, rgb_g = 170, rgb_b = 0 \<rparr> 3 1 1
     [231, 236, 230, 255, 193, 90, 225, 255, 0, 0, 0, 255,
      30, 15, 8, 255, 11, 13, 220, 128, 1, 2, 3, 4]
   = [231, 236, 230, 255, 193, 90, 225, 255, 0, 0, 0, 255,
      30, 15, 8, 255, 2, 2, 33, 128, 1, 2, 3, 4]"
proof -
  have gray: "luma 11 13 220 = 36"
    by (simp add: luma_def double_eval)
  have threshold: "bayerThreshold (Suc 0) (Suc 0) = 255 / 4"
    by (simp add: bayerThreshold_def ditherMatrix_def double_eval)
  have bytes:
    "darkenedByte 11 = 2"
    "darkenedByte 13 = 2"
    "darkenedByte 220 = 33"
    by (simp_all add: darkenedByte_def toUint8Clamped_def double_eval)
  show ?thesis
    by (simp add: ditherPixel_def Let_def gray threshold bytes)
qed

lemma dithering_sample_pixel5:
  "ditherPixel \<lparr> rgb_r = 136, rgb_g = 204, rgb_b = 255 \<rparr>
     \<lparr> rgb_r = 255, rgb_g = 170, rgb_b = 0 \<rparr> 3 2 1
     [231, 236, 230, 255, 193, 90, 225, 255, 0, 0, 0, 255,
      30, 15, 8, 255, 2, 2, 33, 128, 1, 2, 3, 4]
   = [231, 236, 230, 255, 193, 90, 225, 255, 0, 0, 0, 255,
      30, 15, 8, 255, 2, 2, 33, 128, 0, 0, 0, 4]"
proof -
  have gray: "luma (Suc 0) 2 3 = 4087016661838725 / 2251799813685248"
    by (simp add: luma_def double_eval)
  have threshold: "bayerThreshold 2 (Suc 0) = 1785 / 8"
    by (simp add: bayerThreshold_def ditherMatrix_def double_eval)
  have bytes:
    "darkenedByte (Suc 0) = 0"
    "darkenedByte 2 = 0"
    "darkenedByte 3 = 0"
    by (simp_all add: darkenedByte_def toUint8Clamped_def double_eval)
  show ?thesis
    by (simp add: ditherPixel_def Let_def gray threshold bytes)
qed

lemma dithering_sample: "applyEnhancedDithering
     [255, 255, 255, 255, 218, 58, 248, 255, 0, 0, 0, 255,
      200, 100, 50, 255, 11, 13, 220, 128, 1, 2, 3, 4] 3 2 samplePalette
   = [231, 236, 230, 255, 193, 90, 225, 255, 0, 0, 0, 255,
      30, 15, 8, 255, 2, 2, 33, 128, 0, 0, 0, 4]"
  by (simp only: applyEnhancedDithering_def hexToRgb_sample ditherRows_3_2 ditherColumns_3
      dithering_sample_pixel0 dithering_sample_pixel1 dithering_sample_pixel2
      dithering_sample_pixel3 dithering_sample_pixel4 dithering_sample_pixel5)

lemma ditheredByte_le:
  assumes "j < length data" and "\<forall>c \<in> set data. c \<le> 255"
  shows "ditheredByte t a w data j \<le> 255"
proof -
  from assms have "data ! j \<le> 255"
    by simp
  then show ?thesis
    by (simp add: ditheredByte_def Let_def tintedByte_def darkenedByte_def toUint8Clamped_le)
qed

lemma applyEnhancedDithering_pixel:
  fixes colors :: Palette
  assumes len: "length data = w * h * 4" and x: "x < w" and y: "y < h"
  defines "i \<equiv> (y * w + x) * 4"
  defines "out \<equiv> applyEnhancedDithering data w h colors"
  defines "gray \<equiv> luma (data ! i) (data ! (i + 1)) (data ! (i + 2))"
  shows "out ! i = (if gray > bayerThreshold x y
            then tintedByte (data ! i) (rgb_r (hexToRgb (secondary colors)))
                   (rgb_r (hexToRgb (accent colors))) (jsDiv gray 255)
            else darkenedByte (data ! i))"
    and "out ! (i + 1) = (if gray > bayerThreshold x y
            then tintedByte (data ! (i + 1)) (rgb_g (hexToRgb (secondary colors)))
                   (rgb_g (hexToRgb (accent colors))) (jsDiv gray 255)
            else darkenedByte (data ! (i + 1)))"
    and "out ! (i + 2) = (if gray > bayerThreshold x y
            then tintedByte (data ! (i + 2)) (rgb_b (hexToRgb (secondary colors)))
                   (rgb_b (hexToRgb (accent colors))) (jsDiv gray 255)
            else darkenedByte (data ! (i + 2)))"
    and "out ! (i + 3) = data ! (i + 3)"
proof -
  define q where "q = y * w + x"
  have i: "i = 4 * q"
    by (simp add: i_def q_def)
  have yx: "q div w = y" "q mod w = x"
    using x by (simp_all add: q_def)
  have "y * w + x < y * w + w"
    using x by simp
  also have "\<dots> = (y + 1) * w"
    by simp
  also have "\<dots> \<le> h * w"
    using y by (intro mult_le_mono1) simp
  finally have "q < h * w"
    by (simp add: q_def)
  then have "4 * q + 3 < 4 * (h * w)"
    by linarith
  also have "4 * (h * w) = length data"
    using len by simp
  finally have room: "4 * q + 3 < length data" .
  have byte: "out ! (4 * q + c) = ditheredByte (hexToRgb (secondary colors))
      (hexToRgb (accent colors)) w data (4 * q + c)" if "c < 4" for c
    unfolding out_def using that room by (intro applyEnhancedDithering_bytes(2) [OF len]) simp
  show "out ! i = (if gray > bayerThreshold x y
            then tintedByte (data ! i) (rgb_r (hexToRgb (secondary colors)))
                   (rgb_r (hexToRgb (accent colors))) (jsDiv gray 255)
            else darkenedByte (data ! i))"
    using byte [of 0] ditheredByte_at [of 0 _ _ w data q] by (simp add: i gray_def yx)
  show "out ! (i + 1) = (if gray > bayerThreshold x y
            then tintedByte (data ! (i + 1)) (rgb_g (hexToRgb (secondary colors)))
                   (rgb_g (hexToRgb (accent colors))) (jsDiv gray 255)
            else darkenedByte (data ! (i + 1)))"
    using byte [of 1] ditheredByte_at [of 1 _ _ w data q] by (simp add: i gray_def yx)
  show "out ! (i + 2) = (if gray > bayerThreshold x y
            then tintedByte (data ! (i + 2)) (rgb_b (hexToRgb (secondary colors)))
                   (rgb_b (hexToRgb (accent colors))) (jsDiv gray 255)
            else darkenedByte (data ! (i + 2)))"
    using byte [of 2] ditheredByte_at [of 2 _ _ w data q] by (simp add: i gray_def yx)
  show "out ! (i + 3) = data ! (i + 3)"
    using byte [of 3] ditheredByte_at [of 3 _ _ w data q] by (simp add: i)
qed

text \<open>
  Claim C6. For a buffer holding four bytes per pixel of a \<open>width\<close> by \<open>height\<close> image, every
  byte at most 255, and for every palette, \<open>applyEnhancedDithering\<close> returns a buffer of the
  same length whose bytes are all at most 255 (they are natural numbers, so at least 0),
  and the same buffer and palette give the same result. For the pixel in column x of row
  y: when its luma R * 0.299 + G * 0.587 + B * 0.114 exceeds the threshold
  (matrix[y mod 4][x mod 4] / 16) * 255, each colour channel becomes
  channel * 0.7 + secondary * 0.2 + accent * 0.1 * (luma / 255), capped at 255; otherwise
  each colour channel becomes channel * 0.15; the alpha byte is kept. Every operation
  is the one on doubles, and the stored byte is the value rounded as the byte array
  rounds it.
\<close>

theorem applyEnhancedDithering_in_range:
  assumes "length data = width * height * 4" and "\<forall>c \<in> set data. c \<le> 255"
  shows "length (applyEnhancedDithering data width height colors) = length data
    \<and> (\<forall>c \<in> set (applyEnhancedDithering data width height colors). c \<le> 255)
    \<and> (\<forall>x y. x < width \<and> y < height \<longrightarrow>
         (let i = (y * width + x) * 4;
              out = applyEnhancedDithering data width height colors;
              tintRgb = hexToRgb (secondary colors);
              accentRgb = hexToRgb (accent colors);
              gray = jsAdd (jsAdd (jsMul (real (data ! i)) (toDouble (299 / 1000)))
                                  (jsMul (real (data ! (i + 1))) (toDouble (587 / 1000))))
                           (jsMul (real (data ! (i + 2))) (toDouble (114 / 1000)));
              threshold = jsMul (jsDiv (real (ditherMatrix ! (y mod 4) ! (x mod 4))) 16) 255;
              tintStrength = jsDiv gray 255
          in (gray > threshold \<longrightarrow>
                out ! i = toUint8Clamped (min 255
                  (jsAdd (jsAdd (jsMul (real (data ! i)) (toDouble (7 / 10)))
                                (jsMul (real (rgb_r tintRgb)) (toDouble (2 / 10))))
                         (jsMul (jsMul (real (rgb_r accentRgb)) (toDouble (1 / 10))) tintStrength)))
                \<and> out ! (i + 1) = toUint8Clamped (min 255
                  (jsAdd (jsAdd (jsMul (real (data ! (i + 1))) (toDouble (7 / 10)))
                                (jsMul (real (rgb_g tintRgb)) (toDouble (2 / 10))))
                         (jsMul (jsMul (real (rgb_g accentRgb)) (toDouble (1 / 10))) tintStrength)))
                \<and> out ! (i + 2) = toUint8Clamped (min 255
                  (jsAdd (jsAdd (jsMul (real (data ! (i + 2))) (toDouble (7 / 10)))
                                (jsMul (real (rgb_b tintRgb)) (toDouble (2 / 10))))
                         (jsMul (jsMul (real (rgb_b accentRgb)) (toDouble (1 / 10))) tintStrength))))
           \<and> (gray \<le> threshold \<longrightarrow>
                out ! i = toUint8Clamped (jsMul (real (data ! i)) (toDouble (15 / 100)))
                \<and> out ! (i + 1) = toUint8Clamped (jsMul (real (data ! (i + 1))) (toDouble (15 / 100)))
                \<and> out ! (i + 2) = toUint8Clamped (jsMul (real (data ! (i + 2))) (toDouble (15 / 100))))
           \<and> out ! (i + 3) = data ! (i + 3)))
    \<and> (\<forall>data' colors'. data' = data \<and> colors' = colors \<longrightarrow>
          applyEnhancedDithering data' width height colors'
            = applyEnhancedDithering data width height colors)"
proof (intro conjI ballI allI impI)
  show len: "length (applyEnhancedDithering data width height colors) = length data"
    by (rule applyEnhancedDithering_bytes(1) [OF assms(1)])
  fix c assume "c \<in> set (applyEnhancedDithering data width height colors)"
  then obtain j where j: "j < length data" "c = applyEnhancedDithering data width height colors ! j"
    using len by (auto simp: in_set_conv_nth)
  then have "c = ditheredByte (hexToRgb (secondary colors)) (hexToRgb (accent colors)) width data j"
    using applyEnhancedDithering_bytes(2) [OF assms(1)] by simp
  then show "c \<le> 255"
    using ditheredByte_le [OF j(1) assms(2)] by simp
next
  fix x y assume "x < width \<and> y < height"
  then have x: "x < width" and y: "y < height"
    by simp_all
  note px = applyEnhancedDithering_pixel [OF assms(1) x y, of colors]
  show "let i = (y * width + x) * 4;
              out = applyEnhancedDithering data width height colors;
              tintRgb = hexToRgb (secondary colors);
              accentRgb = hexToRgb (accent colors);
              gray = jsAdd (jsAdd (jsMul (real (data ! i)) (toDouble (299 / 1000)))
                                  (jsMul (real (data ! (i + 1))) (toDouble (587 / 1000))))
                           (jsMul (real (data ! (i + 2))) (toDouble (114 / 1000)));
              threshold = jsMul (jsDiv (real (ditherMatrix ! (y mod 4) ! (x mod 4))) 16) 255;
              tintStrength = jsDiv gray 255
          in (gray > threshold \<longrightarrow>
                out ! i = toUint8Clamped (min 255
                  (jsAdd (jsAdd (jsMul (real (data ! i)) (toDouble (7 / 10)))
                                (jsMul (real (rgb_r tintRgb)) (toDouble (2 / 10))))
                         (jsMul (jsMul (real (rgb_r accentRgb)) (toDouble (1 / 10))) tintStrength)))
                \<and> out ! (i + 1) = toUint8Clamped (min 255
                  (jsAdd (jsAdd (jsMul (real (data ! (i + 1))) (toDouble (7 / 10)))
                                (jsMul (real (rgb_g tintRgb)) (toDouble (2 / 10))))
                         (jsMul (jsMul (real (rgb_g accentRgb)) (toDouble (1 / 10))) tintStrength)))
                \<and> out ! (i + 2) = toUint8Clamped (min 255
                  (jsAdd (jsAdd (jsMul (real (data ! (i + 2))) (toDouble (7 / 10)))
                                (jsMul (real (rgb_b tintRgb)) (toDouble (2 / 10))))
                         (jsMul (jsMul (real (rgb_b accentRgb)) (toDouble (1 / 10))) tintStrength))))
           \<and> (gray \<le> threshold \<longrightarrow>
                out ! i = toUint8Clamped (jsMul (real (data ! i)) (toDouble (15 / 100)))
                \<and> out ! (i + 1) = toUint8Clamped (jsMul (real (data ! (i + 1))) (toDouble (15 / 100)))
                \<and> out ! (i + 2) = toUint8Clamped (jsMul (real (data ! (i + 2))) (toDouble (15 / 100))))
           \<and> out ! (i + 3) = data ! (i + 3)"
    unfolding Let_def px
    unfolding luma_def bayerThreshold_def tintedByte_def darkenedByte_def
    by (simp only: if_True if_False split: if_split) (simp add: not_less)
next
  fix data' colors' assume "data' = data \<and> colors' = colors"
  then show "applyEnhancedDithering data' width height colors'
      = applyEnhancedDithering data width height colors"
    by simp
qed

theorem applyEnhancedDithering_in_range_witness:
  "length [255, 255, 255, 255, 218, 58, 248, 255, 0, 0, 0, 255,
           200, 100, 50, 255, 11, 13, 220, 128, 1, 2, 3, 4 :: nat] = 3 * 2 * 4
   \<and> set [255, 255, 255, 255, 218, 58, 248, 255, 0, 0, 0, 255,
           200, 100, 50, 255, 11, 13, 220, 128, 1, 2, 3, 4 :: nat] \<subseteq> {..255}
   \<and> length (applyEnhancedDithering
        [255, 255, 255, 255, 218, 58, 248, 255, 0, 0, 0, 255,
         200, 100, 50, 255, 11, 13, 220, 128, 1, 2, 3, 4] 3 2 samplePalette) = 24
   \<and> applyEnhancedDithering
        [255, 255, 255, 255, 218, 58, 248, 255, 0, 0, 0, 255,
         200, 100, 50, 255, 11, 13, 220, 128, 1, 2, 3, 4] 3 2 samplePalette
      = [231, 236, 230, 255, 193, 90, 225, 255, 0, 0, 0, 255,
         30, 15, 8, 255, 2, 2, 33, 128, 0, 0, 0, 4]"
proof -
  let ?d = "[255, 255, 255, 255, 218, 58, 248, 255, 0, 0, 0, 255,
             200, 100, 50, 255, 11, 13, 220, 128, 1, 2, 3, 4 :: nat]"
  have h: "length ?d = 3 * 2 * 4" "\<forall>c \<in> set ?d. c \<le> 255"
    by simp_all
  have "length (applyEnhancedDithering ?d 3 2 samplePalette) = length ?d"
    using applyEnhancedDithering_in_range [OF h, of samplePalette] by (rule conjunct1)
  then show ?thesis
    using dithering_sample by simp
qed

end
